theory Spec2Isabelle
  imports Main
begin

section \<open>Python strings and integers\<close>

text \<open>
  A Python \<open>str\<close> is modelled as a HOL \<open>string\<close>; a character stands for the code point
  of the same number (the code points below 256). Python integers are \<open>int\<close>.
\<close>

text \<open>\<open>str.isspace\<close> on one character: the code points below 256 that Python strips.\<close>

definition py_isspace :: "char \<Rightarrow> bool" where
  "py_isspace c = (of_char c \<in> {9, 10, 11, 12, 13, 28, 29, 30, 31, 32, 133, 160 :: nat})"

text \<open>\<open>s.strip()\<close>\<close>

definition strip :: "string \<Rightarrow> string" where
  "strip s = rev (dropWhile py_isspace (rev (dropWhile py_isspace s)))"

text \<open>\<open>s.lower()\<close>: A-Z, and the upper-case letters of Latin-1, move up by 32.\<close>

definition lower_char :: "char \<Rightarrow> char" where
  "lower_char c =
     (let n = (of_char c :: nat)
      in if (65 \<le> n \<and> n \<le> 90) \<or> (192 \<le> n \<and> n \<le> 222 \<and> n \<noteq> 215)
         then char_of (n + 32) else c)"

definition lower :: "string \<Rightarrow> string" where
  "lower s = map lower_char s"

text \<open>The decimal digit \<open>d\<close>, for \<open>d\<close> below 10.\<close>

definition digit_char :: "nat \<Rightarrow> char" where
  "digit_char d = ''0123456789'' ! d"

text \<open>\<open>str(n)\<close> for an integer \<open>n\<close>.\<close>

fun str_nat :: "nat \<Rightarrow> string" where
  "str_nat n = (if n < 10 then [digit_char n] else str_nat (n div 10) @ [digit_char (n mod 10)])"

declare str_nat.simps [simp del]

definition str_int :: "int \<Rightarrow> string" where
  "str_int i = (if i < 0 then CHR ''-'' # str_nat (nat (- i)) else str_nat (nat i))"

text \<open>
  \<open>int(s)\<close> in base 10, as CPython 3.11 does it: white space is removed at both ends
  (the code points 9 to 13, 32, 133 and 160; not 28 to 31, which \<open>strip\<close> removes), then
  comes an optional sign, then digits, single underscores allowed between digits. A
  string of more than 4300 digits is refused (\<open>sys.int_info.default_max_str_digits\<close>).
  \<open>None\<close> stands for \<open>ValueError\<close>.
\<close>

definition int_space :: "char \<Rightarrow> bool" where
  "int_space c = (of_char c \<in> {9, 10, 11, 12, 13, 32, 133, 160 :: nat})"

definition int_strip :: "string \<Rightarrow> string" where
  "int_strip s = rev (dropWhile int_space (rev (dropWhile int_space s)))"

definition is_digit :: "char \<Rightarrow> bool" where
  "is_digit c = (48 \<le> (of_char c :: nat) \<and> (of_char c :: nat) \<le> 57)"

definition int_max_str_digits :: nat where
  "int_max_str_digits = 4300"

fun scan_digits :: "bool \<Rightarrow> int \<Rightarrow> string \<Rightarrow> int option" where
  "scan_digits need acc [] = (if need then None else Some acc)"
| "scan_digits need acc (c # cs) =
     (if is_digit c then scan_digits False (10 * acc + (int (of_char c) - 48)) cs
      else if c = CHR ''_'' \<and> \<not> need then scan_digits True acc cs
      else None)"

definition py_int :: "string \<Rightarrow> int option" where
  "py_int s =
     (let t = int_strip s
      in if int_max_str_digits < length (filter is_digit t) then None
         else (case t of
                 [] \<Rightarrow> None
               | c # cs \<Rightarrow>
                   if c = CHR ''-'' then map_option uminus (scan_digits True 0 cs)
                   else if c = CHR ''+'' then scan_digits True 0 cs
                   else scan_digits True 0 (c # cs)))"

section \<open>Exceptions, effects and the world\<close>

text \<open>The classes of exception that a failing call raises; all derive from \<open>Exception\<close>.\<close>

datatype exn_class =
    OverflowError | EOFError | ValueError | ModuleNotFoundError
  | FileNotFoundError | FileExistsError | NotADirectoryError | IsADirectoryError
  | PermissionError | SameFileError | OSError | CalledProcessError | RuntimeError

text \<open>
  What a \<open>raise\<close> carries: an exception of one of these classes with its text, or the
  \<open>SystemExit\<close> of argparse with its status, which derives from \<open>BaseException\<close> only.
  Interrupts from outside the program are not modelled.
\<close>

datatype exn = Exn exn_class string | SystemExit int

text \<open>\<open>str(e)\<close>\<close>

fun str_exn :: "exn \<Rightarrow> string" where
  "str_exn (Exn _ m) = m"
| "str_exn (SystemExit status) = str_int status"

text \<open>\<open>isinstance(e, Exception)\<close>, the test of \<open>except Exception\<close>.\<close>

fun is_Exception :: "exn \<Rightarrow> bool" where
  "is_Exception (Exn _ _) = True"
| "is_Exception (SystemExit _) = False"

text \<open>The test of \<open>except subprocess.CalledProcessError\<close>.\<close>

fun is_CalledProcessError :: "exn \<Rightarrow> bool" where
  "is_CalledProcessError (Exn c _) = (c = CalledProcessError)"
| "is_CalledProcessError (SystemExit _) = False"

text \<open>What the program does to the outside, in the order it does it.\<close>

datatype effect =
    Print string
  | Prompt string
  | Connect int
  | Popen "string list"
  | BrowserOpen string

text \<open>The calls into the operating system and the standard library that can fail.\<close>

datatype syscall =
    SysConnect int
  | SysInput
  | SysPopen "string list"
  | SysBrowser string
  | SysMakedirs string
  | SysImport string
  | SysCopyfile string string
  | SysAppend string string

datatype node = Dir | File string

text \<open>
  The world the program runs in. \<open>framework_name\<close> is the \<open>framework_name\<close> entry of
  \<open>config.toml\<close>, read when the module is loaded. \<open>listening p\<close> says that a TCP
  connection to port \<open>p\<close> of localhost succeeds. \<open>cwd\<close> is what \<open>os.getcwd()\<close> returns.
  The file tree maps an absolute path, as the list of its components, to a directory or
  to a file and its content; it has no links. \<open>modules\<close> gives the directory of each
  importable package. \<open>stdin\<close> holds the lines still to be read. \<open>os_error\<close> names the
  calls that the environment makes fail for reasons the rest of the world does not
  determine (permissions, a missing executable, a full disk); \<open>strerror\<close> is the text
  the platform gives an error of a class about a path or name. \<open>trace\<close> records the
  effects so far. Nothing but the program changes the world while it runs.
\<close>

record world =
  framework_name :: string
  listening :: "int \<Rightarrow> bool"
  cwd :: string
  fs :: "string list \<rightharpoonup> node"
  modules :: "string \<rightharpoonup> string"
  stdin :: "string list"
  os_error :: "syscall \<Rightarrow> (exn_class \<times> string) option"
  strerror :: "exn_class \<Rightarrow> string \<Rightarrow> string"
  trace :: "effect list"

text \<open>A call returns a value or raises; either way it leaves a world behind.\<close>

datatype 'a result = Return 'a world | Raise exn world

fun world_of :: "'a result \<Rightarrow> world" where
  "world_of (Return _ w) = w"
| "world_of (Raise _ w) = w"

definition emit :: "effect \<Rightarrow> world \<Rightarrow> world" where
  "emit e w = w\<lparr>trace := trace w @ [e]\<rparr>"

text \<open>\<open>print(s)\<close>\<close>

definition print :: "string \<Rightarrow> world \<Rightarrow> world" where
  "print s w = emit (Print s) w"

text \<open>\<open>input(prompt)\<close>: writes the prompt, reads one line; \<open>EOFError\<close> when there is none.\<close>

definition input :: "string \<Rightarrow> world \<Rightarrow> string result" where
  "input prompt w =
     (case os_error w SysInput of
        Some (c, m) \<Rightarrow> Raise (Exn c m) w
      | None \<Rightarrow>
          (case stdin w of
             [] \<Rightarrow> Raise (Exn EOFError ''EOF when reading a line'') (emit (Prompt prompt) w)
           | l # ls \<Rightarrow> Return l ((emit (Prompt prompt) w)\<lparr>stdin := ls\<rparr>)))"

text \<open>\<open>subprocess.Popen(argv)\<close>\<close>

definition popen :: "string list \<Rightarrow> world \<Rightarrow> unit result" where
  "popen argv w =
     (case os_error w (SysPopen argv) of
        Some (c, m) \<Rightarrow> Raise (Exn c m) w
      | None \<Rightarrow> Return () (emit (Popen argv) w))"

text \<open>\<open>webbrowser.open(url)\<close>\<close>

definition webbrowser_open :: "string \<Rightarrow> world \<Rightarrow> unit result" where
  "webbrowser_open url w =
     (case os_error w (SysBrowser url) of
        Some (c, m) \<Rightarrow> Raise (Exn c m) w
      | None \<Rightarrow> Return () (emit (BrowserOpen url) w))"

section \<open>Ports\<close>

text \<open>
  \<open>sock.connect_ex(('localhost', port))\<close> on a fresh TCP socket: the error number of
  the connection attempt, 0 when it succeeds, 111 (connection refused) when nothing
  listens. CPython refuses a port outside 0..65535 with \<open>OverflowError\<close> before any
  connection is attempted.
\<close>

definition connect_ex :: "int \<Rightarrow> world \<Rightarrow> int result" where
  "connect_ex port w =
     (case os_error w (SysConnect port) of
        Some (c, m) \<Rightarrow> Raise (Exn c m) w
      | None \<Rightarrow>
          if port < 0 \<or> 65535 < port
          then Raise (Exn OverflowError ''connect_ex(): port must be 0-65535.'') w
          else Return (if listening w port then 0 else 111) (emit (Connect port) w))"

definition is_port_in_use :: "int \<Rightarrow> world \<Rightarrow> bool result" where
  "is_port_in_use port w =
     (case connect_ex port w of
        Raise e w' \<Rightarrow> Raise e w'
      | Return rc w' \<Rightarrow> Return (rc = 0) w')"

text \<open>The \<open>while\<close> loop; \<open>None\<close> is a loop that never ends.\<close>

partial_function (option) find_next_available_port :: "int \<Rightarrow> world \<Rightarrow> int result option" where
  "find_next_available_port port w =
     (case is_port_in_use port w of
        Raise e w' \<Rightarrow> Some (Raise e w')
      | Return b w' \<Rightarrow>
          if b then find_next_available_port (port + 1) w'
          else Some (Return port w'))"

section \<open>The development server\<close>

definition uvicorn_argv :: "int \<Rightarrow> string list" where
  "uvicorn_argv port = [''uvicorn'', ''app:app'', ''--reload'', ''--port'', str_int port]"

text \<open>Lines 45 to 50: what \<open>run_uvicorn\<close> does once the port is settled.\<close>

definition start_uvicorn :: "int \<Rightarrow> world \<Rightarrow> unit result" where
  "start_uvicorn port w =
     (let w1 = print (''Starting Uvicorn on port '' @ str_int port @ ''...'') w
      in case popen (uvicorn_argv port) w1 of
           Raise e w2 \<Rightarrow> Raise e w2
         | Return _ w2 \<Rightarrow>
             (let url = ''http://localhost:'' @ str_int port;
                  w3 = print (''Opening '' @ url @ '' in your default browser'') w2
              in webbrowser_open url w3))"

text \<open>The body of the \<open>try\<close> statement of \<open>run_uvicorn\<close>.\<close>

definition run_uvicorn_try :: "int \<Rightarrow> world \<Rightarrow> unit result option" where
  "run_uvicorn_try port w =
     (case is_port_in_use port w of
        Raise e w1 \<Rightarrow> Some (Raise e w1)
      | Return in_use w1 \<Rightarrow>
          if in_use then
            (let w2 = print (''Port '' @ str_int port @ '' is already in use.'') w1
             in case input (''Do you want to use the next available port (starting from ''
                            @ str_int (port + 1) @ '')? (y/n): '') w2 of
                  Raise e w3 \<Rightarrow> Some (Raise e w3)
                | Return line w3 \<Rightarrow>
                    (let response = lower (strip line)
                     in if response = ''y'' then
                          (case find_next_available_port (port + 1) w3 of
                             None \<Rightarrow> None
                           | Some (Raise e w4) \<Rightarrow> Some (Raise e w4)
                           | Some (Return port' w4) \<Rightarrow>
                               Some (start_uvicorn port'
                                 (print (''Using port '' @ str_int port' @ '' instead.'') w4)))
                        else
                          Some (Return ()
                            (print ''User declined to use another port. Exiting.'' w3))))
          else Some (start_uvicorn port w1))"

definition run_uvicorn :: "int \<Rightarrow> world \<Rightarrow> unit result option" where
  "run_uvicorn port w =
     (case run_uvicorn_try port w of
        None \<Rightarrow> None
      | Some (Return u w') \<Rightarrow> Some (Return u w')
      | Some (Raise e w') \<Rightarrow>
          if is_CalledProcessError e
          then Some (Return ()
                 (print (''An error occurred while running Uvicorn: '' @ str_exn e) w'))
          else Some (Raise e w'))"

section \<open>Paths and the file tree\<close>

text \<open>\<open>os.path.join(a, b)\<close> of \<open>posixpath\<close>.\<close>

definition path_join :: "string \<Rightarrow> string \<Rightarrow> string" where
  "path_join a b =
     (if b \<noteq> [] \<and> hd b = CHR ''/'' then b
      else if a = [] \<or> last a = CHR ''/'' then a @ b
      else a @ ''/'' @ b)"

text \<open>The pieces of a path between its slashes, \<open>p.split('/')\<close>.\<close>

fun components :: "string \<Rightarrow> string list" where
  "components [] = [[]]"
| "components (c # cs) =
     (if c = CHR ''/'' then [] # components cs
      else (case components cs of
              [] \<Rightarrow> [[c]]
            | h # t \<Rightarrow> (c # h) # t))"

text \<open>One step of path resolution from the directory \<open>cur\<close>.\<close>

definition step_key :: "string list \<Rightarrow> string \<Rightarrow> string list" where
  "step_key cur c =
     (if c = [] \<or> c = ''.'' then cur
      else if c = ''..'' then butlast cur
      else cur @ [c])"

text \<open>
  Path resolution: every component is looked up in a directory, so what has been
  reached before a step must be a directory. What the last step reaches need not exist.
\<close>

fun namei :: "(string list \<rightharpoonup> node) \<Rightarrow> string list \<Rightarrow> string list \<Rightarrow> exn_class + string list" where
  "namei t cur [] = Inr cur"
| "namei t cur (c # cs) =
     (case t cur of
        None \<Rightarrow> Inl FileNotFoundError
      | Some (File _) \<Rightarrow> Inl NotADirectoryError
      | Some Dir \<Rightarrow> namei t (step_key cur c) cs)"

text \<open>
  The paths of this program are built from \<open>os.getcwd()\<close>, which is absolute: resolution
  starts at the root. The empty path names nothing.
\<close>

definition resolve :: "world \<Rightarrow> string \<Rightarrow> exn_class + string list" where
  "resolve w p = (if p = [] then Inl FileNotFoundError else namei (fs w) [] (components p))"

text \<open>\<open>os.path.exists(p)\<close>\<close>

definition path_exists :: "world \<Rightarrow> string \<Rightarrow> bool" where
  "path_exists w p =
     (case resolve w p of
        Inl _ \<Rightarrow> False
      | Inr k \<Rightarrow> fs w k \<noteq> None)"

definition os_raise :: "exn_class \<Rightarrow> string \<Rightarrow> world \<Rightarrow> 'a result" where
  "os_raise c p w = Raise (Exn c (strerror w c p)) w"

text \<open>
  \<open>os.makedirs(p, exist_ok=True)\<close>: walks the path, creates each directory that is
  missing, accepts the ones that exist, fails at a file. The directories made before a
  failure stay.
\<close>

fun mkdir_p :: "(string list \<rightharpoonup> node) \<Rightarrow> string list \<Rightarrow> string list
                \<Rightarrow> exn_class option \<times> (string list \<rightharpoonup> node)" where
  "mkdir_p t cur [] =
     (case t cur of
        None \<Rightarrow> (Some FileNotFoundError, t)
      | Some (File _) \<Rightarrow> (Some FileExistsError, t)
      | Some Dir \<Rightarrow> (None, t))"
| "mkdir_p t cur (c # cs) =
     (case t cur of
        None \<Rightarrow> (Some FileNotFoundError, t)
      | Some (File _) \<Rightarrow> (Some NotADirectoryError, t)
      | Some Dir \<Rightarrow>
          (let k = step_key cur c
           in case t k of
                None \<Rightarrow> mkdir_p (t(k \<mapsto> Dir)) k cs
              | Some _ \<Rightarrow> mkdir_p t k cs))"

definition makedirs :: "string \<Rightarrow> world \<Rightarrow> unit result" where
  "makedirs p w =
     (case os_error w (SysMakedirs p) of
        Some (c, m) \<Rightarrow> Raise (Exn c m) w
      | None \<Rightarrow>
          if p = [] then os_raise FileNotFoundError p w
          else (case mkdir_p (fs w) [] (components p) of
                  (Some c, t) \<Rightarrow> os_raise c p (w\<lparr>fs := t\<rparr>)
                | (None, t) \<Rightarrow> Return () (w\<lparr>fs := t\<rparr>)))"

text \<open>\<open>shutil.copyfile(src, dst)\<close>\<close>

definition copyfile :: "string \<Rightarrow> string \<Rightarrow> world \<Rightarrow> unit result" where
  "copyfile src dst w =
     (case os_error w (SysCopyfile src dst) of
        Some (c, m) \<Rightarrow> Raise (Exn c m) w
      | None \<Rightarrow>
          (case resolve w src of
             Inl c \<Rightarrow> os_raise c src w
           | Inr ks \<Rightarrow>
               (case fs w ks of
                  None \<Rightarrow> os_raise FileNotFoundError src w
                | Some Dir \<Rightarrow> os_raise IsADirectoryError src w
                | Some (File content) \<Rightarrow>
                    (case resolve w dst of
                       Inl c \<Rightarrow> os_raise c dst w
                     | Inr kd \<Rightarrow>
                         if kd = ks then os_raise SameFileError dst w
                         else (case fs w kd of
                                 Some Dir \<Rightarrow> os_raise IsADirectoryError dst w
                               | _ \<Rightarrow> Return () (w\<lparr>fs := (fs w)(kd \<mapsto> File content)\<rparr>))))))"

text \<open>\<open>with open(p, 'a') as f: f.write(s)\<close>\<close>

definition append_text :: "string \<Rightarrow> string \<Rightarrow> world \<Rightarrow> unit result" where
  "append_text p s w =
     (case os_error w (SysAppend p s) of
        Some (c, m) \<Rightarrow> Raise (Exn c m) w
      | None \<Rightarrow>
          (case resolve w p of
             Inl c \<Rightarrow> os_raise c p w
           | Inr k \<Rightarrow>
               (case fs w k of
                  Some Dir \<Rightarrow> os_raise IsADirectoryError p w
                | Some (File content) \<Rightarrow> Return () (w\<lparr>fs := (fs w)(k \<mapsto> File (content @ s))\<rparr>)
                | None \<Rightarrow> Return () (w\<lparr>fs := (fs w)(k \<mapsto> File s)\<rparr>))))"

text \<open>
  \<open>importlib.import_module(name)\<close>; the value stands for the module and is the
  directory of the package.
\<close>

definition import_module :: "string \<Rightarrow> world \<Rightarrow> string result" where
  "import_module name w =
     (case os_error w (SysImport name) of
        Some (c, m) \<Rightarrow> Raise (Exn c m) w
      | None \<Rightarrow>
          (case modules w name of
             None \<Rightarrow> os_raise ModuleNotFoundError name w
           | Some d \<Rightarrow> Return d w))"

text \<open>\<open>importlib.resources.files(module) / name\<close>\<close>

definition resource :: "string \<Rightarrow> string \<Rightarrow> string" where
  "resource module_dir name = path_join module_dir name"

section \<open>Scaffolding\<close>

definition MODULE_NAME :: "world \<Rightarrow> string" where
  "MODULE_NAME w = lower (framework_name w)"

definition app_settings :: "string \<Rightarrow> string" where
  "app_settings name =
     [CHR 0x0A] @ ''# App-specific settings'' @ [CHR 0x0A] @
     ''APP_NAME = '' @ [CHR 0x27] @ name @ [CHR 0x27] @ [CHR 0x0A]"

text \<open>Statements in sequence: the first that raises ends the sequence.\<close>

fun seq :: "(world \<Rightarrow> unit result) list \<Rightarrow> world \<Rightarrow> unit result" where
  "seq [] w = Return () w"
| "seq (f # rest) w =
     (case f w of
        Raise e w' \<Rightarrow> Raise e w'
      | Return _ w' \<Rightarrow> seq rest w')"

text \<open>Lines 68 to 112, once the templates module is imported.\<close>

definition copy_templates :: "string \<Rightarrow> string \<Rightarrow> string \<Rightarrow> (world \<Rightarrow> unit result) list" where
  "copy_templates name directory_path TEMPLATES_MODULE =
     (let new_settings_path = path_join directory_path ''settings.py'';
          app_dir = path_join directory_path ''app'';
          routes_dir = path_join app_dir ''routes'';
          static_dir = path_join app_dir ''static''
      in [copyfile (resource TEMPLATES_MODULE ''settings.py'') new_settings_path,
          append_text new_settings_path (app_settings name),
          copyfile (resource TEMPLATES_MODULE ''main.py'') (path_join directory_path ''main.py''),
          copyfile (resource TEMPLATES_MODULE ''app.py'') (path_join directory_path ''app.py''),
          makedirs app_dir,
          makedirs routes_dir,
          makedirs static_dir,
          copyfile (resource TEMPLATES_MODULE ''index.py'') (path_join routes_dir ''index.py''),
          copyfile (resource TEMPLATES_MODULE ''index.html'') (path_join static_dir ''index.html''),
          copyfile (resource TEMPLATES_MODULE ''logo.png'') (path_join static_dir ''logo.png''),
          (\<lambda>w. Return ()
             (print (''Created a new '' @ framework_name w @ '' app at '' @ directory_path) w))])"

text \<open>The body of the \<open>try\<close> statement of \<open>create_app_directory\<close>.\<close>

definition create_app_directory_try :: "string \<Rightarrow> string \<Rightarrow> world \<Rightarrow> unit result" where
  "create_app_directory_try name directory_path w =
     (case makedirs directory_path w of
        Raise e w1 \<Rightarrow> Raise e w1
      | Return _ w1 \<Rightarrow>
          (case import_module (MODULE_NAME w1 @ ''.templates'') w1 of
             Raise e w2 \<Rightarrow> Raise e w2
           | Return TEMPLATES_MODULE w2 \<Rightarrow>
               seq (copy_templates name directory_path TEMPLATES_MODULE) w2))"

definition create_app_directory :: "string \<Rightarrow> world \<Rightarrow> unit result" where
  "create_app_directory name w =
     (let directory_path = path_join (cwd w) name
      in if path_exists w directory_path
         then Return () (print ''app name already exists at this directory'' w)
         else (case create_app_directory_try name directory_path w of
                 Return u w' \<Rightarrow> Return u w'
               | Raise e w' \<Rightarrow>
                   if is_Exception e
                   then Return ()
                          (print (''An error occurred while creating the directory: ''
                                  @ str_exn e) w')
                   else Raise e w'))"

section \<open>The command line\<close>

text \<open>The namespace that \<open>parse_args\<close> returns.\<close>

record args =
  args_command :: string
  args_name :: "string option"
  args_port :: int

text \<open>
  The parser of \<open>main\<close>: a required positional \<open>command\<close>, an optional positional
  \<open>name\<close>, the option \<open>--port\<close> with an integer value and default 8000, and the
  \<open>-h\<close>/\<open>--help\<close> that argparse adds. argparse ends the program with status 2 on a bad
  command line and with status 0 after printing help; what it writes then is not
  recorded. The definitions follow argparse of CPython 3.11.
\<close>

text \<open>
  How argparse reads one word that stands before any \<open>--\<close>: as an argument, as
  \<open>--port\<close> (with the value after \<open>=\<close>, if there is one), as a word that ends the program
  when its turn comes (help, or help misused), as an option the parser does not know, or
  as a shortened long option that fits both \<open>--help\<close> and \<open>--port\<close>.
\<close>

datatype word_class = Arg | Port_option "string option" | Exits int | Unknown | Ambiguous

text \<open>\<open>a.partition('=')\<close>: the part before the first \<open>=\<close>, and the part after it if there is one.\<close>

definition partition_eq :: "string \<Rightarrow> string \<times> string option" where
  "partition_eq a =
     (takeWhile (\<lambda>c. c \<noteq> CHR ''='') a,
      if CHR ''='' \<in> set a then Some (tl (dropWhile (\<lambda>c. c \<noteq> CHR ''='') a)) else None)"

definition is_prefix :: "string \<Rightarrow> string \<Rightarrow> bool" where
  "is_prefix p s = (take (length p) s = p)"

text \<open>
  \<open>-h\<close> with more letters behind it is read as a cluster of one-letter options: the
  status the program ends with. Help is shown (status 0) unless a dash or an \<open>=\<close> after a
  further \<open>h\<close> makes the word an error first.
\<close>

fun help_cluster :: "string \<Rightarrow> int" where
  "help_cluster [] = 0"
| "help_cluster (c # cs) =
     (if c = CHR ''-'' then 2
      else if c = CHR ''h'' then
        (case cs of
           [] \<Rightarrow> 0
         | d # ds \<Rightarrow> if d = CHR ''='' then 2 else help_cluster cs)
      else 0)"

text \<open>
  The words argparse takes for negative numbers: they match
  \<^verbatim>\<open>^-\d+$|^-\d*\.\d+$\<close>, where \<open>$\<close> also matches before a final line feed.
\<close>

definition negative_number_like :: "string \<Rightarrow> bool" where
  "negative_number_like a =
     (let b = (if a \<noteq> [] \<and> last a = CHR 0x0A then butlast a else a)
      in case b of
           [] \<Rightarrow> False
         | c # d \<Rightarrow>
             c = CHR ''-'' \<and>
             ((d \<noteq> [] \<and> list_all is_digit d) \<or>
              (CHR ''.'' \<in> set d \<and>
               list_all is_digit (takeWhile (\<lambda>c. c \<noteq> CHR ''.'') d) \<and>
               tl (dropWhile (\<lambda>c. c \<noteq> CHR ''.'') d) \<noteq> [] \<and>
               list_all is_digit (tl (dropWhile (\<lambda>c. c \<noteq> CHR ''.'') d)))))"

text \<open>\<open>_parse_optional\<close>, for the option strings \<open>-h\<close>, \<open>--help\<close> and \<open>--port\<close>.\<close>

definition classify :: "string \<Rightarrow> word_class" where
  "classify a =
     (if a = [] \<or> hd a \<noteq> CHR ''-'' then Arg
      else if a = ''-h'' \<or> a = ''--help'' then Exits 0
      else if a = ''--port'' then Port_option None
      else if length a = 1 then Arg
      else
        (let (opt, explicit) = partition_eq a
         in if explicit \<noteq> None \<and> (opt = ''-h'' \<or> opt = ''--help'') then Exits 2
            else if explicit \<noteq> None \<and> opt = ''--port'' then Port_option explicit
            else if a ! 1 = CHR ''-'' \<and> is_prefix opt ''--help'' \<and> is_prefix opt ''--port''
              then Ambiguous
            else if a ! 1 = CHR ''-'' \<and> is_prefix opt ''--help''
              then Exits (if explicit = None then 0 else 2)
            else if a ! 1 = CHR ''-'' \<and> is_prefix opt ''--port'' then Port_option explicit
            else if a ! 1 \<noteq> CHR ''-'' \<and> take 2 a = ''-h'' then Exits (help_cluster (drop 2 a))
            else if negative_number_like a then Arg
            else if CHR '' '' \<in> set a then Arg
            else Unknown))"

text \<open>A word that argparse reads as an argument wherever it stands.\<close>

definition positional_word :: "string \<Rightarrow> bool" where
  "positional_word a = (a \<noteq> ''--'' \<and> classify a = Arg)"

text \<open>
  Where the two positionals stand: none read yet; \<open>command\<close> read by the word before;
  \<open>command\<close> and \<open>name\<close> read in a row; an option met after \<open>command\<close>. argparse takes
  both positionals from one run of arguments: once an option follows \<open>command\<close>, \<open>name\<close>
  has its default and later arguments are left over.
\<close>

datatype phase = NoPositional | CommandRead | NameRead | OptionAfter

definition option_met :: "phase \<Rightarrow> phase" where
  "option_met ph = (if ph = NoPositional then NoPositional else OptionAfter)"

definition finish :: "string option \<Rightarrow> string option \<Rightarrow> int \<Rightarrow> bool \<Rightarrow> int + args" where
  "finish cmd nm prt extra =
     (case cmd of
        None \<Rightarrow> Inl 2
      | Some c \<Rightarrow>
          if extra then Inl 2
          else Inr \<lparr>args_command = c, args_name = nm, args_port = prt\<rparr>)"

text \<open>
  The words after \<open>--\<close> are all arguments. A \<open>--\<close> among them that would be the name is
  dropped, and the name keeps its default.
\<close>

fun after_dashes :: "string list \<Rightarrow> phase \<Rightarrow> string option \<Rightarrow> string option \<Rightarrow> int \<Rightarrow> bool
                     \<Rightarrow> int + args" where
  "after_dashes [] ph cmd nm prt extra = finish cmd nm prt extra"
| "after_dashes (b # bs) ph cmd nm prt extra =
     (if ph = NoPositional then after_dashes bs CommandRead (Some b) nm prt extra
      else if ph = CommandRead
        then after_dashes bs NameRead cmd (if b = ''--'' then None else Some b) prt extra
      else after_dashes bs ph cmd nm prt True)"

text \<open>
  The command line from left to right. A leftover word, an unknown option or a \<open>--\<close> that
  follows an option met after \<open>command\<close> makes the parse fail at its end; help, a bad
  value of \<open>--port\<close> and a \<open>--port\<close> without a value end it at once.
\<close>

fun parse_words :: "string list \<Rightarrow> phase \<Rightarrow> string option \<Rightarrow> string option \<Rightarrow> int \<Rightarrow> bool
                    \<Rightarrow> int + args" where
  "parse_words [] ph cmd nm prt extra = finish cmd nm prt extra"
| "parse_words (a # rest) ph cmd nm prt extra =
     (if a = ''--'' then after_dashes rest ph cmd nm prt (extra \<or> ph = OptionAfter)
      else
        (case classify a of
           Arg \<Rightarrow>
             if ph = NoPositional then parse_words rest CommandRead (Some a) nm prt extra
             else if ph = CommandRead then parse_words rest NameRead cmd (Some a) prt extra
             else parse_words rest ph cmd nm prt True
         | Unknown \<Rightarrow> parse_words rest (option_met ph) cmd nm prt True
         | Exits status \<Rightarrow> Inl status
         | Ambiguous \<Rightarrow> Inl 2
         | Port_option (Some v) \<Rightarrow>
             (case py_int v of
                None \<Rightarrow> Inl 2
              | Some n \<Rightarrow> parse_words rest (option_met ph) cmd nm n extra)
         | Port_option None \<Rightarrow>
             (case rest of
                [] \<Rightarrow> Inl 2
              | v # rest' \<Rightarrow>
                  if positional_word v then
                    (case py_int v of
                       None \<Rightarrow> Inl 2
                     | Some n \<Rightarrow> parse_words rest' (option_met ph) cmd nm n extra)
                  else Inl 2)))"

text \<open>
  \<open>parser.parse_args()\<close>. Every word before \<open>--\<close> is classified before anything is done:
  an ambiguous one ends the program even behind a \<open>-h\<close>.
\<close>

definition parse_args :: "string list \<Rightarrow> world \<Rightarrow> args result" where
  "parse_args argv w =
     (if list_ex (\<lambda>a. classify a = Ambiguous) (takeWhile (\<lambda>a. a \<noteq> ''--'') argv)
      then Raise (SystemExit 2) w
      else (case parse_words argv NoPositional None None 8000 False of
              Inl status \<Rightarrow> Raise (SystemExit status) w
            | Inr a \<Rightarrow> Return a w))"

definition usage_new :: "world \<Rightarrow> string" where
  "usage_new w =
     ''Please provide a name for the new app. Usage: '' @ [CHR 0x27] @
     lower (framework_name w) @ '' new <name>'' @ [CHR 0x27]"

definition invalid_command :: "world \<Rightarrow> string" where
  "invalid_command w =
     ''Invalid command. Use '' @ [CHR 0x27] @ lower (framework_name w) @ '' new <name>'' @
     [CHR 0x27] @ '' to create a new app or '' @ [CHR 0x27] @ lower (framework_name w) @
     '' run'' @ [CHR 0x27] @ '' to run the development server.''"

text \<open>\<open>main()\<close>, with \<open>sys.argv[1:]\<close> as its argument.\<close>

definition main :: "string list \<Rightarrow> world \<Rightarrow> unit result option" where
  "main argv w =
     (case parse_args argv w of
        Raise e w' \<Rightarrow> Some (Raise e w')
      | Return a w' \<Rightarrow>
          if args_command a = ''new'' then
            (case args_name a of
               None \<Rightarrow> Some (Return () (print (usage_new w') w'))
             | Some n \<Rightarrow>
                 if n \<noteq> [] then Some (create_app_directory n w')
                 else Some (Return () (print (usage_new w') w')))
          else if args_command a = ''run'' then run_uvicorn (args_port a) w'
          else Some (Return () (print (invalid_command w') w')))"

section \<open>Reading the file tree\<close>

text \<open>A name of one path component: not empty, no slash, neither \<open>.\<close> nor \<open>..\<close>.\<close>

definition dir_name :: "string \<Rightarrow> bool" where
  "dir_name x = (x \<noteq> [] \<and> CHR ''/'' \<notin> set x \<and> x \<noteq> ''.'' \<and> x \<noteq> ''..'')"

text \<open>The content of the file at a path, when there is one.\<close>

definition read_file :: "world \<Rightarrow> string \<Rightarrow> string option" where
  "read_file w p =
     (case resolve w p of
        Inl _ \<Rightarrow> None
      | Inr k \<Rightarrow> (case fs w k of Some (File content) \<Rightarrow> Some content | _ \<Rightarrow> None))"

text \<open>The template of a name in the installed framework.\<close>

definition template_of :: "world \<Rightarrow> string \<Rightarrow> string option" where
  "template_of w f =
     (case modules w (MODULE_NAME w @ ''.templates'') of
        None \<Rightarrow> None
      | Some d \<Rightarrow> read_file w (resource d f))"

definition template_files :: "string list" where
  "template_files = [''settings.py'', ''main.py'', ''app.py'', ''index.py'', ''index.html'', ''logo.png'']"

text \<open>
  The tree of a new application at the directory \<open>k\<close>, from the contents \<open>tmpl\<close> of the
  templates: what the specification says the new directory holds.
\<close>

definition scaffold_tree :: "string list \<Rightarrow> (string \<Rightarrow> string) \<Rightarrow> string \<Rightarrow> (string list \<rightharpoonup> node)" where
  "scaffold_tree k tmpl name =
     [k @ [''settings.py''] \<mapsto> File (tmpl ''settings.py'' @ app_settings name),
      k @ [''main.py''] \<mapsto> File (tmpl ''main.py''),
      k @ [''app.py''] \<mapsto> File (tmpl ''app.py''),
      k @ [''app''] \<mapsto> Dir,
      k @ [''app'', ''routes''] \<mapsto> Dir,
      k @ [''app'', ''static''] \<mapsto> Dir,
      k @ [''app'', ''routes'', ''index.py''] \<mapsto> File (tmpl ''index.py''),
      k @ [''app'', ''static'', ''index.html''] \<mapsto> File (tmpl ''index.html''),
      k @ [''app'', ''static'', ''logo.png''] \<mapsto> File (tmpl ''logo.png'')]"

section \<open>Observing a run\<close>

text \<open>The effects a call has added to the trace.\<close>

definition new_effects :: "world \<Rightarrow> 'a result \<Rightarrow> effect list" where
  "new_effects w r = drop (length (trace w)) (trace (world_of r))"

text \<open>Every process started in a stretch of the trace was given \<open>--reload\<close>.\<close>

definition reloads :: "effect list \<Rightarrow> bool" where
  "reloads ext = (\<forall>argv. Popen argv \<in> set ext \<longrightarrow> ''--reload'' \<in> set argv)"

text \<open>Every directory of one tree is a directory of the other.\<close>

definition keeps_dirs :: "(string list \<rightharpoonup> node) \<Rightarrow> (string list \<rightharpoonup> node) \<Rightarrow> bool" where
  "keeps_dirs t t' = (\<forall>q. t q = Some Dir \<longrightarrow> t' q = Some Dir)"

text \<open>
  The statements of the \<open>try\<close> body of \<open>create_app_directory\<close> as one list, to speak
  of the statement that fails and of those before it. The module that the import
  returns is the one the world holds.
\<close>

definition create_app_directory_steps :: "string \<Rightarrow> string \<Rightarrow> world \<Rightarrow> (world \<Rightarrow> unit result) list" where
  "create_app_directory_steps name directory_path w =
     makedirs directory_path #
     (\<lambda>w1. case import_module (MODULE_NAME w1 @ ''.templates'') w1 of
             Raise e w2 \<Rightarrow> Raise e w2
           | Return _ w2 \<Rightarrow> Return () w2) #
     (case modules w (MODULE_NAME w @ ''.templates'') of
        None \<Rightarrow> []
      | Some d \<Rightarrow> copy_templates name directory_path d)"

text \<open>A statement that removes nothing from the file tree, whether it returns or raises.\<close>

definition step_grows :: "(world \<Rightarrow> unit result) \<Rightarrow> bool" where
  "step_grows f = (\<forall>w r q. f w = r \<longrightarrow> fs w q \<noteq> None \<longrightarrow> fs (world_of r) q \<noteq> None)"

text \<open>A statement that raises nothing but instances of \<open>Exception\<close>.\<close>

definition step_raises_Exception :: "(world \<Rightarrow> unit result) \<Rightarrow> bool" where
  "step_raises_Exception f = (\<forall>w e w'. f w = Raise e w' \<longrightarrow> is_Exception e)"

section \<open>Sample worlds\<close>

text \<open>
  A machine where ports 8000 and 8001 are taken, the framework is installed under
  \<open>/lib/wayland\<close> with its six templates, the working directory \<open>/home/u\<close> holds a
  directory \<open>blog\<close>, and no call fails for a reason of its own. \<open>example_strerror\<close>
  gives the two error texts that the examples print.
\<close>

definition example_strerror :: "exn_class \<Rightarrow> string \<Rightarrow> string" where
  "example_strerror c p =
     (if c = ModuleNotFoundError then ''No module named '' @ [CHR 0x27] @ p @ [CHR 0x27]
      else if c = FileNotFoundError
      then ''[Errno 2] No such file or directory: '' @ [CHR 0x27] @ p @ [CHR 0x27]
      else p)"

definition example_world :: world where
  "example_world =
     \<lparr>framework_name = ''Wayland'',
      listening = (\<lambda>p. p = 8000 \<or> p = 8001),
      cwd = ''/home/u'',
      fs = [[] \<mapsto> Dir,
            [''home''] \<mapsto> Dir,
            [''home'', ''u''] \<mapsto> Dir,
            [''home'', ''u'', ''blog''] \<mapsto> Dir,
            [''lib''] \<mapsto> Dir,
            [''lib'', ''wayland''] \<mapsto> Dir,
            [''lib'', ''wayland'', ''templates''] \<mapsto> Dir,
            [''lib'', ''wayland'', ''templates'', ''settings.py''] \<mapsto> File ''DEBUG = True'',
            [''lib'', ''wayland'', ''templates'', ''main.py''] \<mapsto> File ''import app'',
            [''lib'', ''wayland'', ''templates'', ''app.py''] \<mapsto> File ''app = App()'',
            [''lib'', ''wayland'', ''templates'', ''index.py''] \<mapsto> File ''def index(): pass'',
            [''lib'', ''wayland'', ''templates'', ''index.html''] \<mapsto> File ''<html></html>'',
            [''lib'', ''wayland'', ''templates'', ''logo.png''] \<mapsto> File ''PNG''],
      modules = [''wayland.templates'' \<mapsto> ''/lib/wayland/templates''],
      stdin = [],
      os_error = (\<lambda>_. None),
      strerror = example_strerror,
      trace = []\<rparr>"

text \<open>The same machine with no \<open>uvicorn\<close> on the search path: starting it fails.\<close>

definition world_without_uvicorn :: world where
  "world_without_uvicorn =
     example_world\<lparr>os_error :=
       (\<lambda>c. case c of
              SysPopen argv \<Rightarrow>
                Some (FileNotFoundError,
                      ''[Errno 2] No such file or directory: '' @ [CHR 0x27] @ ''uvicorn'' @ [CHR 0x27])
            | _ \<Rightarrow> None)\<rparr>"

text \<open>The contents of the templates installed in \<open>example_world\<close>.\<close>

definition example_templates :: "string \<Rightarrow> string" where
  "example_templates f =
     (if f = ''settings.py'' then ''DEBUG = True''
      else if f = ''main.py'' then ''import app''
      else if f = ''app.py'' then ''app = App()''
      else if f = ''index.py'' then ''def index(): pass''
      else if f = ''index.html'' then ''<html></html>''
      else if f = ''logo.png'' then ''PNG''
      else [])"

text \<open>The same machine where the templates package cannot be imported.\<close>

definition world_without_templates :: world where
  "world_without_templates = example_world\<lparr>modules := Map.empty\<rparr>"

text \<open>
  The same machine where writing to a file that is open for appending fails: the disk
  has no room left when \<open>settings.py\<close> has been copied.
\<close>

definition world_disk_full :: world where
  "world_disk_full =
     example_world\<lparr>os_error :=
       (\<lambda>c. case c of
              SysAppend p s \<Rightarrow> Some (OSError, ''[Errno 28] No space left on device'')
            | _ \<Rightarrow> None)\<rparr>"

section \<open>The port scan\<close>

lemma is_port_in_use_cases:
  "is_port_in_use p w =
     (case os_error w (SysConnect p) of
        Some (c, m) \<Rightarrow> Raise (Exn c m) w
      | None \<Rightarrow>
          if p < 0 \<or> 65535 < p
          then Raise (Exn OverflowError ''connect_ex(): port must be 0-65535.'') w
          else Return (listening w p) (emit (Connect p) w))"
  by (simp add: is_port_in_use_def connect_ex_def split: option.splits)

lemma is_port_in_use_ReturnD:
  assumes "is_port_in_use p w = Return b w'"
  shows "os_error w (SysConnect p) = None" "0 \<le> p" "p \<le> 65535" "listening w p = b"
        "w' = emit (Connect p) w"
  using assms by (auto simp: is_port_in_use_cases split: option.splits if_splits)

lemma scan_finds_aux:
  assumes "nat (q - p) = n" "p \<le> q"
    and "\<forall>r. p \<le> r \<and> r \<le> q \<longrightarrow> os_error w (SysConnect r) = None"
    and "0 \<le> p" "q \<le> 65535"
    and "\<forall>r. p \<le> r \<and> r < q \<longrightarrow> listening w r"
    and "\<not> listening w q"
  shows "find_next_available_port p (w\<lparr>trace := t\<rparr>)
         = Some (Return q (w\<lparr>trace := t @ map Connect [p..q]\<rparr>))"
  using assms
proof (induction n arbitrary: p t)
  case 0
  then have "p = q" by simp
  with 0 show ?case
    by (subst find_next_available_port.simps)
       (simp add: is_port_in_use_cases emit_def)
next
  case (Suc n)
  then have lt: "p < q" by simp
  have step: "find_next_available_port (p + 1) (w\<lparr>trace := t @ [Connect p]\<rparr>)
        = Some (Return q (w\<lparr>trace := (t @ [Connect p]) @ map Connect [p + 1..q]\<rparr>))"
    using Suc.prems by (intro Suc.IH) auto
  have "[p..q] = p # [p + 1..q]"
    using lt by (simp add: upto_rec1)
  with step lt Suc.prems show ?case
    by (subst find_next_available_port.simps)
       (simp add: is_port_in_use_cases emit_def)
qed

text \<open>
  Claim C1. When \<open>q\<close> is the smallest port from \<open>p\<close> on that \<open>is_port_in_use\<close> reports
  free (it reports every port from \<open>p\<close> up to \<open>q\<close>, \<open>q\<close> excluded, in use),
  \<open>find_next_available_port p\<close> returns \<open>q\<close>, and what it has done is to probe the
  ports \<open>p\<close>, \<open>p + 1\<close>, ..., \<open>q\<close>, each once, in this order.
\<close>

theorem find_next_available_port_smallest_free:
  assumes "p \<le> q"
    and "\<forall>r. p \<le> r \<and> r < q \<longrightarrow> (\<exists>w'. is_port_in_use r w = Return True w')"
    and "\<exists>w'. is_port_in_use q w = Return False w'"
  shows "find_next_available_port p w
         = Some (Return q (w\<lparr>trace := trace w @ map Connect [p..q]\<rparr>))"
proof -
  from assms(3) obtain w' where q: "is_port_in_use q w = Return False w'" by blast
  have busy: "os_error w (SysConnect r) = None \<and> 0 \<le> r \<and> listening w r"
    if "p \<le> r" "r < q" for r
    using assms(2) that by (metis is_port_in_use_ReturnD(1,2,4))
  have "\<forall>r. p \<le> r \<and> r \<le> q \<longrightarrow> os_error w (SysConnect r) = None"
    using busy is_port_in_use_ReturnD(1)[OF q] by (metis order_le_less)
  moreover have "0 \<le> p"
    using busy[of p] is_port_in_use_ReturnD(2)[OF q] assms(1) by (cases "p = q") auto
  moreover have "\<forall>r. p \<le> r \<and> r < q \<longrightarrow> listening w r" using busy by blast
  ultimately have "find_next_available_port p (w\<lparr>trace := trace w\<rparr>)
         = Some (Return q (w\<lparr>trace := trace w @ map Connect [p..q]\<rparr>))"
    using assms(1) is_port_in_use_ReturnD(3,4)[OF q]
    by (intro scan_finds_aux[OF refl]) auto
  then show ?thesis by simp
qed

theorem find_next_available_port_smallest_free_witness:
  "find_next_available_port 8000 example_world
   = Some (Return 8002 (example_world\<lparr>trace := [Connect 8000, Connect 8001, Connect 8002]\<rparr>))"
proof -
  have a: "(8000::int) \<le> 8002" by simp
  have b: "\<forall>r. (8000::int) \<le> r \<and> r < 8002 \<longrightarrow>
             (\<exists>w'. is_port_in_use r example_world = Return True w')"
  proof (intro allI impI)
    fix r :: int assume "8000 \<le> r \<and> r < 8002"
    then have "r = 8000 \<or> r = 8001" by arith
    then show "\<exists>w'. is_port_in_use r example_world = Return True w'"
      by (auto simp: is_port_in_use_cases example_world_def)
  qed
  have c: "\<exists>w'. is_port_in_use 8002 example_world = Return False w'"
    by (simp add: is_port_in_use_cases example_world_def)
  have "[8000..8002] = [8000, 8001, 8002::int]" by (simp add: upto_rec1)
  with find_next_available_port_smallest_free[OF a b c] show ?thesis
    by (simp add: example_world_def)
qed

lemma scan_terminates_aux:
  "nat (65536 - p) \<le> n \<Longrightarrow>
   \<exists>r. find_next_available_port p w = Some r \<and>
       length (trace (world_of r)) \<le> length (trace w) + n"
proof (induction n arbitrary: p w)
  case 0
  then have "65535 < p" by simp
  then show ?case
    by (subst find_next_available_port.simps)
       (simp add: is_port_in_use_cases split: option.splits)
next
  case (Suc n)
  show ?case
  proof (cases "is_port_in_use p w")
    case (Raise e w')
    then have "w' = w"
      by (auto simp: is_port_in_use_cases split: option.splits if_splits)
    with Raise show ?thesis
      by (subst find_next_available_port.simps) simp
  next
    case (Return b w')
    note D = is_port_in_use_ReturnD[OF Return]
    show ?thesis
    proof (cases b)
      case False
      with Return D(5) show ?thesis
        by (subst find_next_available_port.simps) (simp add: emit_def)
    next
      case True
      from Suc.prems D(2,3) have "nat (65536 - (p + 1)) \<le> n" by simp
      from Suc.IH[OF this, of w'] obtain r where
        r: "find_next_available_port (p + 1) w' = Some r"
           "length (trace (world_of r)) \<le> length (trace w') + n" by blast
      with Return True D(5) show ?thesis
        by (subst find_next_available_port.simps) (simp add: emit_def)
    qed
  qed
qed

text \<open>
  Claim C2. The scan ends from every starting port and in every world: a port beyond
  65535 is refused by \<open>connect_ex\<close>, so the loop returns or raises after at most 65536
  probes. No free port has to be assumed.
\<close>

theorem find_next_available_port_terminates:
  "\<exists>r. find_next_available_port p w = Some r \<and>
       length (trace (world_of r)) \<le> length (trace w) + 65536"
proof -
  have "nat (65536 - p) \<le> 65536 \<or> p < 0" by arith
  then show ?thesis
  proof
    assume "nat (65536 - p) \<le> 65536"
    then show ?thesis by (rule scan_terminates_aux)
  next
    assume "p < 0"
    then show ?thesis
      by (subst find_next_available_port.simps)
         (simp add: is_port_in_use_cases split: option.splits)
  qed
qed

text \<open>
  How the scan ends when no port is free: it probes every port up to 65535 and the probe
  of 65536 raises.
\<close>

lemma scan_all_busy_aux:
  assumes "nat (65536 - p) = n" "0 \<le> p" "p \<le> 65536"
    and "\<forall>r. p \<le> r \<and> r \<le> 65536 \<longrightarrow> os_error w (SysConnect r) = None"
    and "\<forall>r. p \<le> r \<and> r \<le> 65535 \<longrightarrow> listening w r"
  shows "find_next_available_port p (w\<lparr>trace := t\<rparr>)
         = Some (Raise (Exn OverflowError ''connect_ex(): port must be 0-65535.'')
                  (w\<lparr>trace := t @ map Connect [p..65535]\<rparr>))"
  using assms
proof (induction n arbitrary: p t)
  case 0
  then have "p = 65536" by simp
  with 0 show ?case
    by (subst find_next_available_port.simps)
       (simp add: is_port_in_use_cases emit_def)
next
  case (Suc n)
  then have lt: "p \<le> 65535" by simp
  have step: "find_next_available_port (p + 1) (w\<lparr>trace := t @ [Connect p]\<rparr>)
        = Some (Raise (Exn OverflowError ''connect_ex(): port must be 0-65535.'')
                  (w\<lparr>trace := (t @ [Connect p]) @ map Connect [p + 1..65535]\<rparr>))"
    using Suc.prems by (intro Suc.IH) auto
  have "[p..65535] = p # [p + 1..65535]"
    using lt by (simp add: upto_rec1)
  with step lt Suc.prems show ?case
    by (subst find_next_available_port.simps)
       (simp add: is_port_in_use_cases emit_def)
qed

lemma scan_all_busy:
  assumes "0 \<le> p" "p \<le> 65536"
    and "\<forall>r. p \<le> r \<and> r \<le> 65536 \<longrightarrow> os_error w (SysConnect r) = None"
    and "\<forall>r. p \<le> r \<and> r \<le> 65535 \<longrightarrow> listening w r"
  shows "find_next_available_port p w
         = Some (Raise (Exn OverflowError ''connect_ex(): port must be 0-65535.'')
                  (w\<lparr>trace := trace w @ map Connect [p..65535]\<rparr>))"
  using scan_all_busy_aux[OF refl assms, of "trace w"] by simp

section \<open>Properties of the development server\<close>

lemma scan_effects_aux:
  "nat (65536 - p) \<le> n \<Longrightarrow>
   \<exists>r cs. find_next_available_port p w = Some r \<and>
       trace (world_of r) = trace w @ map Connect cs \<and>
       os_error (world_of r) = os_error w"
proof (induction n arbitrary: p w)
  case 0
  then have "65535 < p" by simp
  then show ?case
    by (subst find_next_available_port.simps)
       (auto simp add: is_port_in_use_cases split: option.splits)
next
  case (Suc n)
  show ?case
  proof (cases "is_port_in_use p w")
    case (Raise e w')
    then have "w' = w"
      by (auto simp: is_port_in_use_cases split: option.splits if_splits)
    with Raise show ?thesis
      by (subst find_next_available_port.simps) simp
  next
    case (Return b w')
    note D = is_port_in_use_ReturnD[OF Return]
    show ?thesis
    proof (cases b)
      case False
      have "trace w' = trace w @ map Connect [p]" "os_error w' = os_error w"
        using D(5) by (simp_all add: emit_def)
      then have "\<exists>cs. trace (world_of (Return p w')) = trace w @ map Connect cs \<and>
                   os_error (world_of (Return p w' :: int result)) = os_error w"
        unfolding world_of.simps by blast
      with Return False show ?thesis
        by (subst find_next_available_port.simps) simp
    next
      case True
      from Suc.prems D(2,3) have "nat (65536 - (p + 1)) \<le> n" by simp
      from Suc.IH[OF this, of w'] obtain r cs where
        r: "find_next_available_port (p + 1) w' = Some r"
           "trace (world_of r) = trace w' @ map Connect cs"
           "os_error (world_of r) = os_error w'" by blast
      then have "trace (world_of r) = trace w @ map Connect (p # cs)"
           "os_error (world_of r) = os_error w"
        using D(5) by (simp_all add: emit_def)
      then have "\<exists>cs. trace (world_of r) = trace w @ map Connect cs \<and>
                   os_error (world_of r) = os_error w"
        by blast
      with Return True r(1) show ?thesis
        by (subst find_next_available_port.simps) simp
    qed
  qed
qed

lemma scan_effects:
  "\<exists>r cs. find_next_available_port p w = Some r \<and>
       trace (world_of r) = trace w @ map Connect cs \<and>
       os_error (world_of r) = os_error w"
proof -
  have "nat (65536 - p) \<le> 65536 \<or> p < 0" by arith
  then show ?thesis
  proof
    assume "nat (65536 - p) \<le> 65536"
    then show ?thesis by (rule scan_effects_aux)
  next
    assume "p < 0"
    then show ?thesis
      by (subst find_next_available_port.simps)
         (auto simp add: is_port_in_use_cases split: option.splits)
  qed
qed

lemma start_uvicorn_cases:
  "start_uvicorn p w =
     (let w1 = print (''Starting Uvicorn on port '' @ str_int p @ ''...'') w
      in case os_error w (SysPopen (uvicorn_argv p)) of
           Some (c, m) \<Rightarrow> Raise (Exn c m) w1
         | None \<Rightarrow>
             (let w3 = print (''Opening http://localhost:'' @ str_int p @ '' in your default browser'')
                         (emit (Popen (uvicorn_argv p)) w1)
              in case os_error w (SysBrowser (''http://localhost:'' @ str_int p)) of
                   Some (c, m) \<Rightarrow> Raise (Exn c m) w3
                 | None \<Rightarrow> Return () (emit (BrowserOpen (''http://localhost:'' @ str_int p)) w3)))"
  by (simp add: start_uvicorn_def popen_def webbrowser_open_def print_def emit_def Let_def
           split: option.splits)

lemma start_uvicorn_effects:
  "\<exists>ext. trace (world_of (start_uvicorn p w)) = trace w @ ext \<and>
         (\<forall>argv. Popen argv \<in> set ext \<longrightarrow> argv = uvicorn_argv p)"
  by (auto simp add: start_uvicorn_cases print_def emit_def Let_def split: option.splits)

lemma run_uvicorn_try_effects:
  "\<exists>r ext. run_uvicorn_try p w = Some r \<and> trace (world_of r) = trace w @ ext \<and> reloads ext"
proof (cases "is_port_in_use p w")
  case (Raise e w')
  then have "w' = w"
    by (auto simp: is_port_in_use_cases split: option.splits if_splits)
  with Raise show ?thesis by (simp add: run_uvicorn_try_def reloads_def)
next
  case (Return b w1)
  note D = is_port_in_use_ReturnD[OF Return]
  show ?thesis
  proof (cases b)
    case False
    obtain ext where "trace (world_of (start_uvicorn p w1)) = trace w1 @ ext"
      "\<forall>argv. Popen argv \<in> set ext \<longrightarrow> argv = uvicorn_argv p"
      using start_uvicorn_effects by blast
    then have "trace (world_of (start_uvicorn p w1)) = trace w @ (Connect p # ext)"
      "reloads (Connect p # ext)"
      using D(5) by (auto simp: emit_def reloads_def uvicorn_argv_def)
    with Return False show ?thesis by (simp add: run_uvicorn_try_def; blast)
  next
    case True
    let ?w2 = "print (''Port '' @ str_int p @ '' is already in use.'') w1"
    let ?q = "''Do you want to use the next available port (starting from ''
                            @ str_int (p + 1) @ '')? (y/n): ''"
    show ?thesis
    proof (cases "input ?q ?w2")
      case (Raise e w3)
      then have "\<exists>ext. trace w3 = trace w @ ext \<and> reloads ext"
        using D(5) by (auto simp: input_def print_def emit_def reloads_def
            split: option.splits list.splits)
      with Return True Raise show ?thesis by (simp add: run_uvicorn_try_def Let_def)
    next
      case R: (Return line w3)
      then have w3: "trace w3 = trace w @ [Connect p, Print (''Port '' @ str_int p @ '' is already in use.''), Prompt ?q]"
        using D(5) by (auto simp: input_def print_def emit_def
            split: option.splits list.splits)
      show ?thesis
      proof (cases "lower (strip line) = ''y''")
        case False
        have "reloads [Connect p, Print (''Port '' @ str_int p @ '' is already in use.''), Prompt ?q, Print ''User declined to use another port. Exiting.'']"
          by (simp add: reloads_def)
        with Return True R False w3 show ?thesis
          by (simp add: run_uvicorn_try_def Let_def print_def emit_def)
      next
        case y: True
        obtain r cs where r: "find_next_available_port (p + 1) w3 = Some r"
          "trace (world_of r) = trace w3 @ map Connect cs"
          using scan_effects by blast
        show ?thesis
        proof (cases r)
          case (Raise e w4)
          have "reloads ([Connect p, Print (''Port '' @ str_int p @ '' is already in use.''), Prompt ?q] @ map Connect cs)"
            by (auto simp add: reloads_def)
          with Return True R y r Raise w3 show ?thesis
            by (simp add: run_uvicorn_try_def Let_def; blast)
        next
          case Ret: (Return p' w4)
          let ?w5 = "print (''Using port '' @ str_int p' @ '' instead.'') w4"
          obtain ext where ext: "trace (world_of (start_uvicorn p' ?w5)) = trace ?w5 @ ext"
            "\<forall>argv. Popen argv \<in> set ext \<longrightarrow> argv = uvicorn_argv p'"
            using start_uvicorn_effects by blast
          have "trace (world_of (start_uvicorn p' ?w5)) = trace w @ ([Connect p, Print (''Port '' @ str_int p @ '' is already in use.''), Prompt ?q] @ map Connect cs @ [Print (''Using port '' @ str_int p' @ '' instead.'')] @ ext)"
            using ext(1) r(2) w3 Ret by (simp add: print_def emit_def)
          moreover have "reloads ([Connect p, Print (''Port '' @ str_int p @ '' is already in use.''), Prompt ?q] @ map Connect cs @ [Print (''Using port '' @ str_int p' @ '' instead.'')] @ ext)"
            using ext(2) by (auto simp add: reloads_def uvicorn_argv_def)
          ultimately show ?thesis
            using Return True R y r(1) Ret
            by (simp add: run_uvicorn_try_def Let_def; blast)
        qed
      qed
    qed
  qed
qed

text \<open>
  Claim C6. \<open>run_uvicorn\<close> ends from every port and in every world, and every process
  it has started, on the requested port or on the next free one, was given \<open>--reload\<close>.
\<close>

theorem run_uvicorn_always_reloads:
  "\<exists>r. run_uvicorn p w = Some r \<and>
       (\<forall>argv. Popen argv \<in> set (new_effects w r) \<longrightarrow> ''--reload'' \<in> set argv)"
proof -
  obtain r ext where r: "run_uvicorn_try p w = Some r" "trace (world_of r) = trace w @ ext"
    "reloads ext"
    using run_uvicorn_try_effects by blast
  show ?thesis
  proof (cases r)
    case (Return u w')
    with r show ?thesis by (simp add: run_uvicorn_def new_effects_def reloads_def)
  next
    case (Raise e w')
    with r show ?thesis
      by (auto simp add: run_uvicorn_def new_effects_def reloads_def print_def emit_def)
  qed
qed

lemma str_int_8000 [simp]: "str_int 8000 = ''8000''"
  by (simp add: str_int_def str_nat.simps digit_char_def)

lemma str_int_8001 [simp]: "str_int 8001 = ''8001''"
  by (simp add: str_int_def str_nat.simps digit_char_def)

lemma str_int_8002 [simp]: "str_int 8002 = ''8002''"
  by (simp add: str_int_def str_nat.simps digit_char_def)

text \<open>
  Claim C5, as amended. When the requested port is not in use, and neither the launch
  of the process nor the call of the browser raises, \<open>run_uvicorn\<close> returns after these
  effects and no others: the probe of the port, one process started with the command
  line \<open>uvicorn app:app --reload --port <port>\<close>, and then the browser opened at
  \<open>http://localhost:<port>\<close>.
\<close>

theorem run_uvicorn_free_port:
  assumes "\<exists>w1. is_port_in_use p w = Return False w1"
    and "os_error w (SysPopen [''uvicorn'', ''app:app'', ''--reload'', ''--port'', str_int p]) = None"
    and "os_error w (SysBrowser (''http://localhost:'' @ str_int p)) = None"
  shows "run_uvicorn p w =
         Some (Return ()
           (w\<lparr>trace := trace w @
              [Connect p,
               Print (''Starting Uvicorn on port '' @ str_int p @ ''...''),
               Popen [''uvicorn'', ''app:app'', ''--reload'', ''--port'', str_int p],
               Print (''Opening http://localhost:'' @ str_int p @ '' in your default browser''),
               BrowserOpen (''http://localhost:'' @ str_int p)]\<rparr>))"
proof -
  from assms(1) obtain w1 where w1: "is_port_in_use p w = Return False w1" by blast
  note D = is_port_in_use_ReturnD[OF w1]
  have "os_error w1 = os_error w" "trace w1 = trace w @ [Connect p]"
    using D(5) by (simp_all add: emit_def)
  then show ?thesis
    using w1 assms(2,3) D(5)
    by (simp add: run_uvicorn_def run_uvicorn_try_def start_uvicorn_cases uvicorn_argv_def
          print_def emit_def Let_def)
qed

theorem run_uvicorn_free_port_witness:
  "run_uvicorn 8002 example_world =
   Some (Return ()
     (example_world\<lparr>trace :=
        [Connect 8002,
         Print ''Starting Uvicorn on port 8002...'',
         Popen [''uvicorn'', ''app:app'', ''--reload'', ''--port'', ''8002''],
         Print ''Opening http://localhost:8002 in your default browser'',
         BrowserOpen ''http://localhost:8002'']\<rparr>))"
proof -
  have a: "\<exists>w1. is_port_in_use 8002 example_world = Return False w1"
    by (simp add: is_port_in_use_cases example_world_def)
  have b: "os_error example_world (SysPopen [''uvicorn'', ''app:app'', ''--reload'', ''--port'', str_int 8002]) = None"
    by (simp add: example_world_def)
  have c: "os_error example_world (SysBrowser (''http://localhost:'' @ str_int 8002)) = None"
    by (simp add: example_world_def)
  from run_uvicorn_free_port[OF a b c] show ?thesis
    by (simp add: example_world_def)
qed

text \<open>
  Claim C5 as stated fails where the launch itself fails: the port is free, \<open>Popen\<close>
  raises \<open>FileNotFoundError\<close>, which the handler for \<open>CalledProcessError\<close> does not
  catch; no process is started and no browser is opened.
\<close>

theorem run_uvicorn_free_port_counterexample:
  "is_port_in_use 8002 world_without_uvicorn
     = Return False (world_without_uvicorn\<lparr>trace := [Connect 8002]\<rparr>) \<and>
   run_uvicorn 8002 world_without_uvicorn
     = Some (Raise (Exn FileNotFoundError
                      (''[Errno 2] No such file or directory: '' @ [CHR 0x27] @ ''uvicorn'' @ [CHR 0x27]))
              (world_without_uvicorn\<lparr>trace :=
                 [Connect 8002, Print ''Starting Uvicorn on port 8002...'']\<rparr>))"
  by (simp add: run_uvicorn_def run_uvicorn_try_def start_uvicorn_cases uvicorn_argv_def
        is_port_in_use_cases print_def emit_def Let_def world_without_uvicorn_def example_world_def)

text \<open>
  Claim C8. When the requested port is in use and the reply, stripped and lowered, is not
  \<open>y\<close>, \<open>run_uvicorn\<close> returns after the probe, the two messages and the prompt:
  it starts no process and opens no browser.
\<close>

theorem run_uvicorn_declined:
  assumes "\<exists>w1. is_port_in_use p w = Return True w1"
    and "os_error w SysInput = None"
    and "stdin w = reply # rest"
    and "lower (strip reply) \<noteq> ''y''"
  shows "run_uvicorn p w =
         Some (Return ()
           (w\<lparr>stdin := rest,
              trace := trace w @
              [Connect p,
               Print (''Port '' @ str_int p @ '' is already in use.''),
               Prompt (''Do you want to use the next available port (starting from ''
                       @ str_int (p + 1) @ '')? (y/n): ''),
               Print ''User declined to use another port. Exiting.'']\<rparr>))"
proof -
  from assms(1) obtain w1 where w1: "is_port_in_use p w = Return True w1" by blast
  note D = is_port_in_use_ReturnD[OF w1]
  show ?thesis
    using w1 assms(2-4) D(5)
    by (simp add: run_uvicorn_def run_uvicorn_try_def input_def
          print_def emit_def Let_def)
qed

theorem run_uvicorn_declined_witness:
  "run_uvicorn 8000 (example_world\<lparr>stdin := ['' Yes'']\<rparr>) =
   Some (Return ()
     (example_world\<lparr>trace :=
        [Connect 8000,
         Print ''Port 8000 is already in use.'',
         Prompt ''Do you want to use the next available port (starting from 8001)? (y/n): '',
         Print ''User declined to use another port. Exiting.'']\<rparr>))"
proof -
  have a: "\<exists>w1. is_port_in_use 8000 (example_world\<lparr>stdin := ['' Yes'']\<rparr>) = Return True w1"
    by (simp add: is_port_in_use_cases example_world_def)
  have b: "os_error (example_world\<lparr>stdin := ['' Yes'']\<rparr>) SysInput = None"
    by (simp add: example_world_def)
  have c: "stdin (example_world\<lparr>stdin := ['' Yes'']\<rparr>) = '' Yes'' # []"
    by simp
  have d: "lower (strip '' Yes'') \<noteq> ''y''"
    by (simp add: lower_def strip_def py_isspace_def lower_char_def char_of_eq_iff)
  from run_uvicorn_declined[OF a b c d] show ?thesis
    by (simp add: example_world_def)
qed

lemma reply_accepted: "lower (strip '' Y  '') = ''y''"
  by (simp add: lower_def strip_def py_isspace_def lower_char_def char_of_eq_iff)

theorem run_uvicorn_always_reloads_witness:
  "run_uvicorn 8000 (example_world\<lparr>stdin := ['' Y  '']\<rparr>) =
     Some (Return ()
     (example_world\<lparr>trace :=
        [Connect 8000,
         Print ''Port 8000 is already in use.'',
         Prompt ''Do you want to use the next available port (starting from 8001)? (y/n): '',
         Connect 8001, Connect 8002,
         Print ''Using port 8002 instead.'',
         Print ''Starting Uvicorn on port 8002...'',
         Popen [''uvicorn'', ''app:app'', ''--reload'', ''--port'', ''8002''],
         Print ''Opening http://localhost:8002 in your default browser'',
         BrowserOpen ''http://localhost:8002'']\<rparr>)) \<and>
   ''--reload'' \<in> set [''uvicorn'', ''app:app'', ''--reload'', ''--port'', ''8002'']"
proof -
  let ?w = "example_world\<lparr>stdin := ['' Y  '']\<rparr>"
  let ?w3 = "example_world\<lparr>trace := [Connect 8000,
         Print ''Port 8000 is already in use.'',
         Prompt ''Do you want to use the next available port (starting from 8001)? (y/n): '']\<rparr>"
  have scan: "find_next_available_port 8001 ?w3
      = Some (Return 8002 (?w3\<lparr>trace := trace ?w3 @ map Connect [8001..8002]\<rparr>))"
    using scan_finds_aux[OF refl, of 8001 8002 example_world "trace ?w3"]
    by (simp add: example_world_def)
  have up: "[8001..8002] = [8001, 8002::int]" by (simp add: upto_rec1)
  have run: "run_uvicorn 8000 ?w = Some (Return ()
     (example_world\<lparr>trace :=
        [Connect 8000,
         Print ''Port 8000 is already in use.'',
         Prompt ''Do you want to use the next available port (starting from 8001)? (y/n): '',
         Connect 8001, Connect 8002,
         Print ''Using port 8002 instead.'',
         Print ''Starting Uvicorn on port 8002...'',
         Popen [''uvicorn'', ''app:app'', ''--reload'', ''--port'', ''8002''],
         Print ''Opening http://localhost:8002 in your default browser'',
         BrowserOpen ''http://localhost:8002'']\<rparr>))"
    using scan up
    by (simp add: run_uvicorn_def run_uvicorn_try_def input_def is_port_in_use_cases reply_accepted
          start_uvicorn_cases uvicorn_argv_def print_def emit_def Let_def example_world_def)
  from run_uvicorn_always_reloads[of 8000 ?w] run show ?thesis
    by (simp add: new_effects_def example_world_def)
qed

section \<open>Path resolution and directory creation\<close>

lemma components_nonempty [simp]: "components p \<noteq> []"
  by (induction p) (auto split: list.splits)

lemma components_append_slash:
  "components (a @ CHR ''/'' # b) = components a @ components b"
proof (induction a)
  case Nil
  show ?case by simp
next
  case (Cons c a)
  obtain h t where ht: "components a = h # t"
    by (cases "components a") simp_all
  with Cons show ?case by simp
qed

lemma components_plain: "CHR ''/'' \<notin> set x \<Longrightarrow> components x = [x]"
  by (induction x) auto

lemma namei_append:
  "namei t cur (xs @ ys) =
     (case namei t cur xs of Inl e \<Rightarrow> Inl e | Inr k \<Rightarrow> namei t k ys)"
  by (induction xs arbitrary: cur) (auto split: option.splits node.splits)

lemma namei_mono:
  "namei t cur cs = Inr k \<Longrightarrow> (\<And>q. t q = Some Dir \<Longrightarrow> t' q = Some Dir) \<Longrightarrow>
   namei t' cur cs = Inr k"
  by (induction cs arbitrary: cur) (auto split: option.splits node.splits)

lemma step_key_dir_name: "dir_name x \<Longrightarrow> step_key k x = k @ [x]"
  by (simp add: step_key_def dir_name_def)

lemma namei_empty_last:
  "namei t cur (cs @ [[]]) = Inr k \<Longrightarrow> namei t cur cs = Inr k"
  by (auto simp add: namei_append step_key_def split: sum.splits option.splits node.splits)

lemma dir_name_components:
  assumes "dir_name x"
  shows "components x = [x]" "hd x \<noteq> CHR ''/''" "x \<noteq> []"
proof -
  from assms have n: "x \<noteq> []" "CHR ''/'' \<notin> set x"
    by (simp_all add: dir_name_def)
  then show "components x = [x]" by (simp add: components_plain)
  from n show "hd x \<noteq> CHR ''/''" by (cases x) auto
  from n show "x \<noteq> []" by simp
qed

lemma join_components:
  assumes "dir_name x" "a \<noteq> []" "namei t [] (components a) = Inr k"
  shows "\<exists>cs. components (path_join a x) = cs @ [x] \<and> namei t [] cs = Inr k"
proof (cases "last a = CHR ''/''")
  case True
  define a' where "a' = butlast a"
  have a': "a = a' @ ''/''"
    using append_butlast_last_id[OF assms(2)] True by (simp add: a'_def)
  note x = dir_name_components[OF assms(1)]
  have "components a = components a' @ [[]]"
    unfolding a' by (simp add: components_append_slash)
  with assms(3) have "namei t [] (components a' @ [[]]) = Inr k"
    by simp
  then have "namei t [] (components a') = Inr k"
    by (rule namei_empty_last)
  moreover have "components (path_join a x) = components a' @ [x]"
    using x unfolding a'
    by (simp add: path_join_def components_append_slash)
  ultimately show ?thesis by blast
next
  case False
  note x = dir_name_components[OF assms(1)]
  have "components (path_join a x) = components a @ [x]"
    using x assms(2) False
    by (simp add: path_join_def components_append_slash)
  with assms(3) show ?thesis by blast
qed

lemma path_join_nonempty: "dir_name x \<Longrightarrow> path_join a x \<noteq> []"
  by (auto simp: path_join_def dir_name_def)

lemma resolve_join:
  assumes "dir_name x" "resolve w a = Inr k" "fs w k = Some Dir"
  shows "resolve w (path_join a x) = Inr (k @ [x])"
proof -
  from assms(2) have a: "a \<noteq> []" "namei (fs w) [] (components a) = Inr k"
    by (auto simp: resolve_def split: if_splits)
  from join_components[OF assms(1) a] obtain cs where
    cs: "components (path_join a x) = cs @ [x]" "namei (fs w) [] cs = Inr k" by blast
  then show ?thesis
    using assms(1,3)
    by (simp add: resolve_def path_join_nonempty namei_append step_key_dir_name)
qed

lemma resolve_mono:
  "resolve w a = Inr k \<Longrightarrow> (\<And>q. fs w q = Some Dir \<Longrightarrow> fs w' q = Some Dir) \<Longrightarrow>
   resolve w' a = Inr k"
  by (auto simp: resolve_def split: if_splits intro: namei_mono)

lemma resolve_join_last:
  assumes "dir_name x" "resolve w (path_join a x) = Inr k"
  shows "\<exists>k'. k = k' @ [x]"
proof (cases "a = []")
  case True
  with assms show ?thesis
    by (auto simp: resolve_def path_join_def dir_name_def components_plain step_key_def
             split: if_splits option.splits node.splits)
next
  case False
  note x = dir_name_components[OF assms(1)]
  have "\<exists>cs. components (path_join a x) = cs @ [x]"
  proof (cases "last a = CHR ''/''")
    case True
    define a' where "a' = butlast a"
    have a': "a = a' @ ''/''"
      using append_butlast_last_id[OF False] True by (simp add: a'_def)
    have "components (path_join a x) = components a' @ [x]"
      using x assms(1) True unfolding a'
      by (simp add: path_join_def components_append_slash dir_name_def)
    then show ?thesis by blast
  next
    case F: False
    have "components (path_join a x) = components a @ [x]"
      using x assms(1) False F
      by (simp add: path_join_def components_append_slash dir_name_def)
    then show ?thesis by blast
  qed
  then obtain cs where "components (path_join a x) = cs @ [x]" by blast
  with assms show ?thesis
    by (auto simp: resolve_def namei_append step_key_dir_name
             split: if_splits sum.splits option.splits node.splits)
qed


lemma mkdir_p_grows:
  "mkdir_p t cur cs = (r, t') \<Longrightarrow>
   (t q \<noteq> None \<longrightarrow> t' q = t q) \<and> (t q = None \<longrightarrow> t' q = None \<or> t' q = Some Dir)"
proof (induction cs arbitrary: t cur)
  case Nil
  then show ?case by (auto split: option.splits node.splits)
next
  case (Cons c cs)
  show ?case
  proof (cases "t cur")
    case None
    with Cons.prems show ?thesis by simp
  next
    case (Some n)
    show ?thesis
    proof (cases n)
      case (File x)
      with Some Cons.prems show ?thesis by simp
    next
      case Dir
      show ?thesis
      proof (cases "t (step_key cur c)")
        case None
        with Some Dir Cons.prems
        have "mkdir_p (t(step_key cur c \<mapsto> Dir)) (step_key cur c) cs = (r, t')"
          by (simp add: Let_def)
        from Cons.IH[OF this] None show ?thesis
          by (cases "q = step_key cur c") auto
      next
        case S: (Some m)
        with Some Dir Cons.prems
        have "mkdir_p t (step_key cur c) cs = (r, t')"
          by (simp add: Let_def)
        from Cons.IH[OF this] show ?thesis .
      qed
    qed
  qed
qed

lemma mkdir_p_keeps_dir:
  "mkdir_p t cur cs = (r, t') \<Longrightarrow> t q = Some Dir \<Longrightarrow> t' q = Some Dir"
  using mkdir_p_grows[of t cur cs r t' q] by simp

lemma mkdir_p_ok:
  "mkdir_p t cur cs = (None, t') \<Longrightarrow> \<exists>k. namei t' cur cs = Inr k \<and> t' k = Some Dir"
proof (induction cs arbitrary: t cur)
  case Nil
  then show ?case by (auto split: option.splits node.splits)
next
  case (Cons c cs)
  from Cons.prems have cur: "t cur = Some Dir"
    by (auto split: option.splits node.splits)
  then have cur': "t' cur = Some Dir"
    using mkdir_p_keeps_dir[OF Cons.prems] by simp
  show ?case
  proof (cases "t (step_key cur c)")
    case None
    with cur Cons.prems
    have "mkdir_p (t(step_key cur c \<mapsto> Dir)) (step_key cur c) cs = (None, t')"
      by (simp add: Let_def)
    from Cons.IH[OF this] cur' show ?thesis by simp
  next
    case (Some m)
    with cur Cons.prems
    have "mkdir_p t (step_key cur c) cs = (None, t')"
      by (simp add: Let_def)
    from Cons.IH[OF this] cur' show ?thesis by simp
  qed
qed

lemma namei_first_exists:
  "namei t c cs = Inr k \<Longrightarrow> t k \<noteq> None \<Longrightarrow> t c \<noteq> None"
  by (cases cs) (auto split: option.splits)

lemma mkdir_p_skip:
  "namei t cur xs = Inr k \<Longrightarrow> t k \<noteq> None \<Longrightarrow> mkdir_p t cur (xs @ ys) = mkdir_p t k ys"
proof (induction xs arbitrary: cur)
  case Nil
  then show ?case by simp
next
  case (Cons c xs)
  from Cons.prems(1) have cur: "t cur = Some Dir"
    and rest: "namei t (step_key cur c) xs = Inr k"
    by (auto split: option.splits node.splits)
  from namei_first_exists[OF rest Cons.prems(2)] obtain m where "t (step_key cur c) = Some m"
    by blast
  with cur Cons.IH[OF rest Cons.prems(2)] show ?case
    by (simp add: Let_def)
qed

section \<open>What a successful or a failed call tells\<close>

lemma makedirs_ReturnE:
  assumes "makedirs p w = Return u w'"
  shows "\<exists>k. resolve w' p = Inr k \<and> fs w' k = Some Dir"
    and "w' = w\<lparr>fs := fs w'\<rparr>"
    and "fs w q \<noteq> None \<Longrightarrow> fs w' q = fs w q"
    and "fs w q = None \<Longrightarrow> fs w' q = None \<or> fs w' q = Some Dir"
proof -
  from assms obtain t where t: "mkdir_p (fs w) [] (components p) = (None, t)"
    and w': "w' = w\<lparr>fs := t\<rparr>" and p: "p \<noteq> []"
    by (auto simp: makedirs_def os_raise_def split: option.splits if_splits prod.splits)
  from mkdir_p_ok[OF t] p w' show "\<exists>k. resolve w' p = Inr k \<and> fs w' k = Some Dir"
    by (simp add: resolve_def)
  from w' show "w' = w\<lparr>fs := fs w'\<rparr>" by simp
  from mkdir_p_grows[OF t, of q] w' show "fs w q \<noteq> None \<Longrightarrow> fs w' q = fs w q" by simp
  from mkdir_p_grows[OF t, of q] w' show "fs w q = None \<Longrightarrow> fs w' q = None \<or> fs w' q = Some Dir"
    by simp
qed

lemma makedirs_RaiseE:
  assumes "makedirs p w = Raise e w'"
  shows "w' = w\<lparr>fs := fs w'\<rparr>"
    and "fs w q \<noteq> None \<Longrightarrow> fs w' q = fs w q"
    and "is_Exception e"
proof -
  from assms have "(w' = w \<or> (\<exists>c t. mkdir_p (fs w) [] (components p) = (Some c, t) \<and> w' = w\<lparr>fs := t\<rparr>))
      \<and> is_Exception e"
    by (auto simp: makedirs_def os_raise_def split: option.splits if_splits prod.splits)
  then show "w' = w\<lparr>fs := fs w'\<rparr>" "fs w q \<noteq> None \<Longrightarrow> fs w' q = fs w q" "is_Exception e"
    using mkdir_p_grows[of "fs w" "[]" "components p" _ _ q] by auto
qed

lemma makedirs_child:
  assumes "dir_name x" "resolve w a = Inr k" "fs w k = Some Dir"
    and "makedirs (path_join a x) w = Return u w'"
  shows "w' = w\<lparr>fs := (fs w)(k @ [x] \<mapsto> Dir)\<rparr>"
proof -
  from assms(2) have a: "a \<noteq> []" "namei (fs w) [] (components a) = Inr k"
    by (auto simp: resolve_def split: if_splits)
  from join_components[OF assms(1) a] obtain cs where
    cs: "components (path_join a x) = cs @ [x]" "namei (fs w) [] cs = Inr k" by blast
  have "mkdir_p (fs w) [] (cs @ [x]) = mkdir_p (fs w) k [x]"
    using cs(2) assms(3) by (intro mkdir_p_skip) simp_all
  then have m: "mkdir_p (fs w) [] (components (path_join a x)) =
      (case fs w (k @ [x]) of
         None \<Rightarrow> (None, (fs w)(k @ [x] \<mapsto> Dir))
       | Some Dir \<Rightarrow> (None, fs w)
       | Some (File _) \<Rightarrow> (Some FileExistsError, fs w))"
    using assms(1,3) cs(1)
    by (simp add: step_key_dir_name Let_def split: option.splits node.splits)
  have idem: "fs w (k @ [x]) = Some Dir \<Longrightarrow> (fs w)(k @ [x] \<mapsto> Dir) = fs w"
    by (rule fun_upd_idem) simp
  from assms(4) m idem show ?thesis
    by (auto simp: makedirs_def os_raise_def split: option.splits if_splits node.splits)
qed

lemma copyfile_ReturnE:
  assumes "copyfile src dst w = Return u w'"
  shows "\<exists>ks c kd. resolve w src = Inr ks \<and> fs w ks = Some (File c) \<and>
           resolve w dst = Inr kd \<and> kd \<noteq> ks \<and> fs w kd \<noteq> Some Dir \<and>
           w' = w\<lparr>fs := (fs w)(kd \<mapsto> File c)\<rparr>"
  using assms
  by (auto simp: copyfile_def os_raise_def
           split: option.splits sum.splits node.splits if_splits)

lemma copyfile_RaiseE:
  assumes "copyfile src dst w = Raise e w'"
  shows "w' = w" "is_Exception e"
  using assms
  by (auto simp: copyfile_def os_raise_def
           split: option.splits sum.splits node.splits if_splits)

lemma append_text_ReturnE:
  assumes "append_text p s w = Return u w'" "resolve w p = Inr k" "fs w k = Some (File c)"
  shows "w' = w\<lparr>fs := (fs w)(k \<mapsto> File (c @ s))\<rparr>"
  using assms
  by (auto simp: append_text_def os_raise_def
           split: option.splits sum.splits node.splits if_splits)

lemma append_text_RaiseE:
  assumes "append_text p s w = Raise e w'"
  shows "w' = w" "is_Exception e"
  using assms
  by (auto simp: append_text_def os_raise_def
           split: option.splits sum.splits node.splits if_splits)

lemma import_module_ReturnE:
  assumes "import_module m w = Return d w'"
  shows "w' = w" "modules w m = Some d"
  using assms
  by (auto simp: import_module_def os_raise_def split: option.splits)

lemma import_module_RaiseE:
  assumes "import_module m w = Raise e w'"
  shows "w' = w" "is_Exception e"
  using assms
  by (auto simp: import_module_def os_raise_def split: option.splits)

lemma seq_ConsE:
  assumes "seq (f # rest) w = Return u w'"
  obtains w1 where "f w = Return () w1" "seq rest w1 = Return u w'"
  using assms by (auto split: result.splits)

section \<open>Running the scaffold step by step\<close>

lemma keeps_dirs_refl [simp]: "keeps_dirs t t"
  by (simp add: keeps_dirs_def)

lemma keeps_dirs_trans: "keeps_dirs a b \<Longrightarrow> keeps_dirs b c \<Longrightarrow> keeps_dirs a c"
  by (simp add: keeps_dirs_def)

lemma keeps_dirs_upd:
  "keeps_dirs t t' \<Longrightarrow> t' k \<noteq> Some Dir \<or> n = Dir \<Longrightarrow> keeps_dirs t (t'(k \<mapsto> n))"
  by (auto simp add: keeps_dirs_def)

lemma resolve_keeps:
  "resolve w a = Inr k \<Longrightarrow> keeps_dirs (fs w) (fs w') \<Longrightarrow> resolve w' a = Inr k"
  using resolve_mono[of w a k w'] by (simp add: keeps_dirs_def)

lemma keeps_dirsD: "keeps_dirs t t' \<Longrightarrow> t q = Some Dir \<Longrightarrow> t' q = Some Dir"
  by (simp add: keeps_dirs_def)

lemma template_source:
  assumes "template_of w f = Some c" "modules w (MODULE_NAME w @ ''.templates'') = Some d"
    and "dir_name f"
  shows "\<exists>ks. resolve w (resource d f) = Inr ks \<and> fs w ks = Some (File c) \<and>
              ks \<noteq> [] \<and> last ks = f"
proof -
  from assms(1,2) have "read_file w (resource d f) = Some c"
    by (simp add: template_of_def)
  then obtain ks where ks: "resolve w (resource d f) = Inr ks" "fs w ks = Some (File c)"
    by (auto simp: read_file_def split: sum.splits option.splits node.splits)
  from resolve_join_last[OF assms(3), of w d ks] ks(1) obtain k' where "ks = k' @ [f]"
    by (auto simp: resource_def)
  with ks show ?thesis by auto
qed

lemma copy_step:
  assumes run: "copyfile (resource d f) (path_join a x) wi = Return u wj"
    and dst: "dir_name x" "resolve wi a = Inr ka" "fs wi ka = Some Dir"
    and src: "resolve w (resource d f) = Inr ks" "fs w ks = Some (File c)"
             "keeps_dirs (fs w) (fs wi)" "fs wi ks = fs w ks"
  shows "wj = wi\<lparr>fs := (fs wi)(ka @ [x] \<mapsto> File c)\<rparr>"
    and "fs wi (ka @ [x]) \<noteq> Some Dir"
proof -
  have d: "resolve wi (path_join a x) = Inr (ka @ [x])"
    using dst by (rule resolve_join)
  have s: "resolve wi (resource d f) = Inr ks"
    using src(1,3) by (rule resolve_keeps)
  from copyfile_ReturnE[OF run] d s src(2,4)
  show "wj = wi\<lparr>fs := (fs wi)(ka @ [x] \<mapsto> File c)\<rparr>" "fs wi (ka @ [x]) \<noteq> Some Dir"
    by auto
qed


lemma dir_name_templates:
  "dir_name ''settings.py''" "dir_name ''main.py''" "dir_name ''app.py''"
  "dir_name ''index.py''" "dir_name ''index.html''" "dir_name ''logo.png''"
  "dir_name ''app''" "dir_name ''routes''" "dir_name ''static''"
  by (simp_all add: dir_name_def)

lemma scaffold_run:
  assumes tm: "\<forall>f\<in>set template_files. template_of w f = Some (tmpl f)"
    and ok: "create_app_directory_try name dp w = Return u w'"
  shows "\<exists>w1 k. makedirs dp w = Return () w1 \<and> resolve w1 dp = Inr k \<and> fs w1 k = Some Dir \<and>
           keeps_dirs (fs w1) (fs w') \<and>
           w' = w1\<lparr>fs := fs w1 ++ scaffold_tree k tmpl name,
                    trace := trace w @
                      [Print (''Created a new '' @ framework_name w @ '' app at '' @ dp)]\<rparr>"
proof -
  from ok obtain w1 where m1: "makedirs dp w = Return () w1"
    and r1: "(case import_module (MODULE_NAME w1 @ ''.templates'') w1 of
                Raise e w2 \<Rightarrow> Raise e w2
              | Return d w2 \<Rightarrow> seq (copy_templates name dp d) w2) = Return u w'"
    by (auto simp: create_app_directory_try_def split: result.splits)
  then obtain d w2 where im: "import_module (MODULE_NAME w1 @ ''.templates'') w1 = Return d w2"
    and sq0: "seq (copy_templates name dp d) w2 = Return u w'"
    by (auto split: result.splits)
  from import_module_ReturnE[OF im] have w2: "w2 = w1"
    and md1: "modules w1 (MODULE_NAME w1 @ ''.templates'') = Some d" by simp_all
  note mk = makedirs_ReturnE[OF m1]
  from mk(1) obtain k where k: "resolve w1 dp = Inr k" "fs w1 k = Some Dir" by blast
  have w1eq: "w1 = w\<lparr>fs := fs w1\<rparr>" by (rule mk(2))
  have fields: "framework_name w1 = framework_name w" "modules w1 = modules w"
    "trace w1 = trace w"
    by (subst w1eq, simp)+
  have md: "modules w (MODULE_NAME w @ ''.templates'') = Some d"
    using md1 fields by (simp add: MODULE_NAME_def)
  have kd0: "keeps_dirs (fs w) (fs w1)"
    unfolding keeps_dirs_def using mk(3) by auto
  have same0: "fs w1 q = fs w q" if "fs w q = Some (File c)" for q c
    using mk(3)[of q] that by simp

  from tm have t: "template_of w ''settings.py'' = Some (tmpl ''settings.py'')"
    "template_of w ''main.py'' = Some (tmpl ''main.py'')"
    "template_of w ''app.py'' = Some (tmpl ''app.py'')"
    "template_of w ''index.py'' = Some (tmpl ''index.py'')"
    "template_of w ''index.html'' = Some (tmpl ''index.html'')"
    "template_of w ''logo.png'' = Some (tmpl ''logo.png'')"
    by (simp_all add: template_files_def)
  from template_source[OF t(1) md dir_name_templates(1)] obtain s1 where
    s1: "resolve w (resource d ''settings.py'') = Inr s1"
        "fs w s1 = Some (File (tmpl ''settings.py''))" "s1 \<noteq> []" "last s1 = ''settings.py''"
    by blast
  from template_source[OF t(2) md dir_name_templates(2)] obtain s2 where
    s2: "resolve w (resource d ''main.py'') = Inr s2"
        "fs w s2 = Some (File (tmpl ''main.py''))" "s2 \<noteq> []" "last s2 = ''main.py''"
    by blast
  from template_source[OF t(3) md dir_name_templates(3)] obtain s3 where
    s3: "resolve w (resource d ''app.py'') = Inr s3"
        "fs w s3 = Some (File (tmpl ''app.py''))" "s3 \<noteq> []" "last s3 = ''app.py''"
    by blast
  from template_source[OF t(4) md dir_name_templates(4)] obtain s4 where
    s4: "resolve w (resource d ''index.py'') = Inr s4"
        "fs w s4 = Some (File (tmpl ''index.py''))" "s4 \<noteq> []" "last s4 = ''index.py''"
    by blast
  from template_source[OF t(5) md dir_name_templates(5)] obtain s5 where
    s5: "resolve w (resource d ''index.html'') = Inr s5"
        "fs w s5 = Some (File (tmpl ''index.html''))" "s5 \<noteq> []" "last s5 = ''index.html''"
    by blast
  from template_source[OF t(6) md dir_name_templates(6)] obtain s6 where
    s6: "resolve w (resource d ''logo.png'') = Inr s6"
        "fs w s6 = Some (File (tmpl ''logo.png''))" "s6 \<noteq> []" "last s6 = ''logo.png''"
    by blast
  have far: "s \<noteq> key" if "last s \<noteq> last key" for s key :: "string list"
    using that by auto
  note f1 = same0[OF s1(2)] and f2 = same0[OF s2(2)] and f3 = same0[OF s3(2)]
    and f4 = same0[OF s4(2)] and f5 = same0[OF s5(2)] and f6 = same0[OF s6(2)]

  let ?dst1 = "k @ [''settings.py'']"
  let ?F2 = "(fs w1)(?dst1 \<mapsto> File (tmpl ''settings.py''))"
  let ?F3 = "?F2(?dst1 \<mapsto> File (tmpl ''settings.py'' @ app_settings name))"
  let ?F4 = "?F3(k @ [''main.py''] \<mapsto> File (tmpl ''main.py''))"
  let ?F5 = "?F4(k @ [''app.py''] \<mapsto> File (tmpl ''app.py''))"
  let ?F6 = "?F5(k @ [''app''] \<mapsto> Dir)"
  let ?F7 = "?F6(k @ [''app'', ''routes''] \<mapsto> Dir)"
  let ?F8 = "?F7(k @ [''app'', ''static''] \<mapsto> Dir)"
  let ?F9 = "?F8(k @ [''app'', ''routes'', ''index.py''] \<mapsto> File (tmpl ''index.py''))"
  let ?F10 = "?F9(k @ [''app'', ''static'', ''index.html''] \<mapsto> File (tmpl ''index.html''))"
  let ?F11 = "?F10(k @ [''app'', ''static'', ''logo.png''] \<mapsto> File (tmpl ''logo.png''))"

  let ?app = "path_join dp ''app''"
  let ?routes = "path_join ?app ''routes''"
  let ?static = "path_join ?app ''static''"
  let ?T11 = "[\<lambda>w. Return ()
             (print (''Created a new '' @ framework_name w @ '' app at '' @ dp) w)]"
  let ?T10 = "copyfile (resource d ''logo.png'') (path_join ?static ''logo.png'') # ?T11"
  let ?T9 = "copyfile (resource d ''index.html'') (path_join ?static ''index.html'') # ?T10"
  let ?T8 = "copyfile (resource d ''index.py'') (path_join ?routes ''index.py'') # ?T9"
  let ?T7 = "makedirs ?static # ?T8"
  let ?T6 = "makedirs ?routes # ?T7"
  let ?T5 = "makedirs ?app # ?T6"
  let ?T4 = "copyfile (resource d ''app.py'') (path_join dp ''app.py'') # ?T5"
  let ?T3 = "copyfile (resource d ''main.py'') (path_join dp ''main.py'') # ?T4"
  let ?T2 = "append_text (path_join dp ''settings.py'') (app_settings name) # ?T3"

  from sq0[unfolded w2 copy_templates_def Let_def] obtain x2 where
    c1: "copyfile (resource d ''settings.py'') (path_join dp ''settings.py'') w1 = Return () x2"
    and q2: "seq ?T2 x2 = Return u w'"
    by (rule seq_ConsE)
  note st1 = copy_step[OF c1 dir_name_templates(1) k s1(1,2) kd0 f1]
  have x2: "x2 = w1\<lparr>fs := ?F2\<rparr>" by (rule st1(1))
  have K2: "keeps_dirs (fs w1) ?F2"
    by (rule keeps_dirs_upd[OF keeps_dirs_refl]) (use st1(2) in simp)

  from q2 obtain x3 where
    a2: "append_text (path_join dp ''settings.py'') (app_settings name) x2 = Return () x3"
    and q3: "seq ?T3 x3 = Return u w'"
    by (rule seq_ConsE)
  have R2: "resolve x2 dp = Inr k" "fs x2 k = Some Dir"
    using resolve_keeps[OF k(1), of x2] keeps_dirsD[OF K2 k(2)] K2 x2 by simp_all
  have "resolve x2 (path_join dp ''settings.py'') = Inr ?dst1"
    using dir_name_templates(1) R2 by (rule resolve_join)
  from append_text_ReturnE[OF a2 this, of "tmpl ''settings.py''"] x2
  have x3: "x3 = w1\<lparr>fs := ?F3\<rparr>" by simp
  have K3: "keeps_dirs (fs w1) ?F3"
    by (rule keeps_dirs_upd[OF K2]) simp

  from q3 obtain x4 where
    c3: "copyfile (resource d ''main.py'') (path_join dp ''main.py'') x3 = Return () x4"
    and q4: "seq ?T4 x4 = Return u w'"
    by (rule seq_ConsE)
  have R3: "resolve x3 dp = Inr k" "fs x3 k = Some Dir" "keeps_dirs (fs w) (fs x3)"
    using resolve_keeps[OF k(1), of x3] keeps_dirsD[OF K3 k(2)] K3 x3
      keeps_dirs_trans[OF kd0 K3] by simp_all
  have "fs x3 s2 = fs w s2"
    using far[of s2] s2(4) f2 x3 by simp
  note st3 = copy_step[OF c3 dir_name_templates(2) R3(1,2) s2(1,2) R3(3) this]
  have x4: "x4 = w1\<lparr>fs := ?F4\<rparr>" using st3(1) x3 by simp
  have K4: "keeps_dirs (fs w1) ?F4"
    by (rule keeps_dirs_upd[OF K3]) (use st3(2) x3 in simp)

  from q4 obtain x5 where
    c4: "copyfile (resource d ''app.py'') (path_join dp ''app.py'') x4 = Return () x5"
    and q5: "seq ?T5 x5 = Return u w'"
    by (rule seq_ConsE)
  have R4: "resolve x4 dp = Inr k" "fs x4 k = Some Dir" "keeps_dirs (fs w) (fs x4)"
    using resolve_keeps[OF k(1), of x4] keeps_dirsD[OF K4 k(2)] K4 x4
      keeps_dirs_trans[OF kd0 K4] by simp_all
  have "fs x4 s3 = fs w s3"
    using far[of s3] s3(4) f3 x4 by simp
  note st4 = copy_step[OF c4 dir_name_templates(3) R4(1,2) s3(1,2) R4(3) this]
  have x5: "x5 = w1\<lparr>fs := ?F5\<rparr>" using st4(1) x4 by simp
  have K5: "keeps_dirs (fs w1) ?F5"
    by (rule keeps_dirs_upd[OF K4]) (use st4(2) x4 in simp)

  from q5 obtain x6 where
    m5: "makedirs ?app x5 = Return () x6"
    and q6: "seq ?T6 x6 = Return u w'"
    by (rule seq_ConsE)
  have R5: "resolve x5 dp = Inr k" "fs x5 k = Some Dir"
    using resolve_keeps[OF k(1), of x5] keeps_dirsD[OF K5 k(2)] K5 x5 by simp_all
  from makedirs_child[OF dir_name_templates(7) R5 m5] x5
  have x6: "x6 = w1\<lparr>fs := ?F6\<rparr>" by simp
  have K6: "keeps_dirs (fs w1) ?F6"
    by (rule keeps_dirs_upd[OF K5]) simp

  from q6 obtain x7 where
    m6: "makedirs ?routes x6 = Return () x7"
    and q7: "seq ?T7 x7 = Return u w'"
    by (rule seq_ConsE)
  have R6: "resolve x6 dp = Inr k" "fs x6 k = Some Dir"
    using resolve_keeps[OF k(1), of x6] keeps_dirsD[OF K6 k(2)] K6 x6 by simp_all
  have A6: "resolve x6 ?app = Inr (k @ [''app''])" "fs x6 (k @ [''app'']) = Some Dir"
    using resolve_join[OF dir_name_templates(7) R6] x6 by simp_all
  from makedirs_child[OF dir_name_templates(8) A6 m6] x6
  have x7: "x7 = w1\<lparr>fs := ?F7\<rparr>" by simp
  have K7: "keeps_dirs (fs w1) ?F7"
    by (rule keeps_dirs_upd[OF K6]) simp

  from q7 obtain x8 where
    m7: "makedirs ?static x7 = Return () x8"
    and q8: "seq ?T8 x8 = Return u w'"
    by (rule seq_ConsE)
  have R7: "resolve x7 dp = Inr k" "fs x7 k = Some Dir"
    using resolve_keeps[OF k(1), of x7] keeps_dirsD[OF K7 k(2)] K7 x7 by simp_all
  have A7: "resolve x7 ?app = Inr (k @ [''app''])" "fs x7 (k @ [''app'']) = Some Dir"
    using resolve_join[OF dir_name_templates(7) R7] x7 by simp_all
  from makedirs_child[OF dir_name_templates(9) A7 m7] x7
  have x8: "x8 = w1\<lparr>fs := ?F8\<rparr>" by simp
  have K8: "keeps_dirs (fs w1) ?F8"
    by (rule keeps_dirs_upd[OF K7]) simp

  from q8 obtain x9 where
    c8: "copyfile (resource d ''index.py'') (path_join ?routes ''index.py'') x8 = Return () x9"
    and q9: "seq ?T9 x9 = Return u w'"
    by (rule seq_ConsE)
  have R8: "resolve x8 dp = Inr k" "fs x8 k = Some Dir" "keeps_dirs (fs w) (fs x8)"
    using resolve_keeps[OF k(1), of x8] keeps_dirsD[OF K8 k(2)] K8 x8
      keeps_dirs_trans[OF kd0 K8] by simp_all
  have A8: "resolve x8 ?app = Inr (k @ [''app''])" "fs x8 (k @ [''app'']) = Some Dir"
    using resolve_join[OF dir_name_templates(7) R8(1,2)] x8 by simp_all
  have B8: "resolve x8 ?routes = Inr (k @ [''app'', ''routes''])"
    "fs x8 (k @ [''app'', ''routes'']) = Some Dir"
    using resolve_join[OF dir_name_templates(8) A8] x8 by simp_all
  have "fs x8 s4 = fs w s4"
    using far[of s4] s4(4) f4 x8 by simp
  note st8 = copy_step[OF c8 dir_name_templates(4) B8 s4(1,2) R8(3) this]
  have x9: "x9 = w1\<lparr>fs := ?F9\<rparr>" using st8(1) x8 by simp
  have K9: "keeps_dirs (fs w1) ?F9"
    by (rule keeps_dirs_upd[OF K8]) (use st8(2) x8 in simp)

  from q9 obtain x10 where
    c9: "copyfile (resource d ''index.html'') (path_join ?static ''index.html'') x9 = Return () x10"
    and q10: "seq ?T10 x10 = Return u w'"
    by (rule seq_ConsE)
  have R9: "resolve x9 dp = Inr k" "fs x9 k = Some Dir" "keeps_dirs (fs w) (fs x9)"
    using resolve_keeps[OF k(1), of x9] keeps_dirsD[OF K9 k(2)] K9 x9
      keeps_dirs_trans[OF kd0 K9] by simp_all
  have A9: "resolve x9 ?app = Inr (k @ [''app''])" "fs x9 (k @ [''app'']) = Some Dir"
    using resolve_join[OF dir_name_templates(7) R9(1,2)] x9 by simp_all
  have B9: "resolve x9 ?static = Inr (k @ [''app'', ''static''])"
    "fs x9 (k @ [''app'', ''static'']) = Some Dir"
    using resolve_join[OF dir_name_templates(9) A9] x9 by simp_all
  have "fs x9 s5 = fs w s5"
    using far[of s5] s5(4) f5 x9 by simp
  note st9 = copy_step[OF c9 dir_name_templates(5) B9 s5(1,2) R9(3) this]
  have x10: "x10 = w1\<lparr>fs := ?F10\<rparr>" using st9(1) x9 by simp
  have K10: "keeps_dirs (fs w1) ?F10"
    by (rule keeps_dirs_upd[OF K9]) (use st9(2) x9 in simp)

  from q10 obtain x11 where
    c10: "copyfile (resource d ''logo.png'') (path_join ?static ''logo.png'') x10 = Return () x11"
    and q11: "seq ?T11 x11 = Return u w'"
    by (rule seq_ConsE)
  have R10: "resolve x10 dp = Inr k" "fs x10 k = Some Dir" "keeps_dirs (fs w) (fs x10)"
    using resolve_keeps[OF k(1), of x10] keeps_dirsD[OF K10 k(2)] K10 x10
      keeps_dirs_trans[OF kd0 K10] by simp_all
  have A10: "resolve x10 ?app = Inr (k @ [''app''])" "fs x10 (k @ [''app'']) = Some Dir"
    using resolve_join[OF dir_name_templates(7) R10(1,2)] x10 by simp_all
  have B10: "resolve x10 ?static = Inr (k @ [''app'', ''static''])"
    "fs x10 (k @ [''app'', ''static'']) = Some Dir"
    using resolve_join[OF dir_name_templates(9) A10] x10 by simp_all
  have "fs x10 s6 = fs w s6"
    using far[of s6] s6(4) f6 x10 by simp
  note st10 = copy_step[OF c10 dir_name_templates(6) B10 s6(1,2) R10(3) this]
  have x11: "x11 = w1\<lparr>fs := ?F11\<rparr>" using st10(1) x10 by simp
  have K11: "keeps_dirs (fs w1) ?F11"
    by (rule keeps_dirs_upd[OF K10]) (use st10(2) x10 in simp)

  from q11 have "w' = print (''Created a new '' @ framework_name x11 @ '' app at '' @ dp) x11"
    by simp
  then have w': "w' = w1\<lparr>fs := ?F11,
                    trace := trace w @
                      [Print (''Created a new '' @ framework_name w @ '' app at '' @ dp)]\<rparr>"
    using x11 fields by (simp add: print_def emit_def)
  have tree: "?F11 = fs w1 ++ scaffold_tree k tmpl name"
    by (simp add: scaffold_tree_def)
  from w' K11 have "keeps_dirs (fs w1) (fs w')" by simp
  with m1 k w' tree show ?thesis by simp
qed

section \<open>The scaffold as a list of statements\<close>

lemma makedirs_fields:
  assumes "makedirs p w = r"
  shows "modules (world_of r) = modules w" "framework_name (world_of r) = framework_name w"
    "os_error (world_of r) = os_error w" "strerror (world_of r) = strerror w"
  using assms
  by (auto simp: makedirs_def os_raise_def split: option.splits if_splits prod.splits)

lemma try_as_steps:
  "create_app_directory_try name dp w = seq (create_app_directory_steps name dp w) w"
proof (cases "makedirs dp w")
  case (Raise e w1)
  then show ?thesis
    by (simp add: create_app_directory_try_def create_app_directory_steps_def)
next
  case (Return u w1)
  from makedirs_fields[OF Return] have same: "modules w1 = modules w" "MODULE_NAME w1 = MODULE_NAME w"
    by (simp_all add: MODULE_NAME_def)
  show ?thesis
  proof (cases "import_module (MODULE_NAME w1 @ ''.templates'') w1")
    case R: (Raise e w2)
    with Return show ?thesis
      by (simp add: create_app_directory_try_def create_app_directory_steps_def)
  next
    case R: (Return d w2)
    from import_module_ReturnE[OF R] same have "modules w (MODULE_NAME w @ ''.templates'') = Some d"
      "w2 = w1" by simp_all
    with Return R show ?thesis
      by (simp add: create_app_directory_try_def create_app_directory_steps_def)
  qed
qed

lemma seq_append:
  "seq (xs @ ys) w = (case seq xs w of Raise e w' \<Rightarrow> Raise e w' | Return _ w' \<Rightarrow> seq ys w')"
  by (induction xs arbitrary: w) (auto split: result.splits)

lemma seq_fails_at:
  assumes "i < length xs" "seq (take i xs) w = Return u wi" "(xs ! i) wi = Raise e wx"
  shows "seq xs w = Raise e wx"
proof -
  have "xs = take i xs @ (xs ! i) # drop (Suc i) xs"
    using assms(1) by (simp add: id_take_nth_drop)
  then have "seq xs w = seq (take i xs @ (xs ! i) # drop (Suc i) xs) w" by simp
  also have "\<dots> = Raise e wx"
    using assms(2,3) by (simp add: seq_append)
  finally show ?thesis .
qed

lemma step_growsD:
  "step_grows f \<Longrightarrow> fs w q \<noteq> None \<Longrightarrow> fs (world_of (f w)) q \<noteq> None"
  by (simp add: step_grows_def)

lemma seq_grows:
  assumes "\<forall>f\<in>set xs. step_grows f" "seq xs w = r" "fs w q \<noteq> None"
  shows "fs (world_of r) q \<noteq> None"
  using assms
proof (induction xs arbitrary: w)
  case Nil
  then show ?case by auto
next
  case (Cons f xs)
  from Cons.prems(1,3) have f: "fs (world_of (f w)) q \<noteq> None"
    by (intro step_growsD) simp_all
  show ?case
  proof (cases "f w")
    case (Raise e w1)
    with Cons.prems(2) f show ?thesis by auto
  next
    case (Return u w1)
    with f have "fs w1 q \<noteq> None" by simp
    with Cons.IH[of w1] Cons.prems Return show ?thesis by simp
  qed
qed

lemma makedirs_grows: "step_grows (makedirs p)"
  unfolding step_grows_def
proof (intro allI impI)
  fix w r q
  assume "makedirs p w = r" "fs w q \<noteq> None"
  then show "fs (world_of r) q \<noteq> None"
    using makedirs_ReturnE(3)[of p w _ _ q] makedirs_RaiseE(2)[of p w _ _ q]
    by (cases r) auto
qed

lemma copyfile_grows: "step_grows (copyfile src dst)"
  unfolding step_grows_def
proof (intro allI impI)
  fix w r q
  assume "copyfile src dst w = r" "fs w q \<noteq> None"
  then show "fs (world_of r) q \<noteq> None"
    using copyfile_ReturnE[of src dst w] copyfile_RaiseE(1)[of src dst w]
    by (cases r) auto
qed

lemma append_text_grows: "step_grows (append_text p s)"
  unfolding step_grows_def
  by (auto simp: append_text_def os_raise_def
           split: option.splits sum.splits node.splits if_splits)

lemma import_step_grows:
  "step_grows (\<lambda>w1. case import_module (m w1) w1 of
             Raise e w2 \<Rightarrow> Raise e w2
           | Return _ w2 \<Rightarrow> Return () w2)"
  unfolding step_grows_def
  by (auto simp: import_module_def os_raise_def split: option.splits)

lemma print_step_grows: "step_grows (\<lambda>w. Return () (print (s w) w))"
  unfolding step_grows_def by (auto simp: print_def emit_def)

lemma steps_grow: "\<forall>f\<in>set (create_app_directory_steps name dp w). step_grows f"
  by (auto simp: create_app_directory_steps_def copy_templates_def Let_def
        makedirs_grows copyfile_grows append_text_grows import_step_grows print_step_grows
        split: option.splits)

lemma steps_raise_Exception:
  "\<forall>f\<in>set (create_app_directory_steps name dp w). step_raises_Exception f"
  by (auto simp: create_app_directory_steps_def copy_templates_def Let_def
        step_raises_Exception_def
        dest: makedirs_RaiseE(3) copyfile_RaiseE(2) append_text_RaiseE(2) import_module_RaiseE(2)
        split: option.splits result.splits)

lemma seq_raises_Exception:
  assumes "\<forall>f\<in>set xs. step_raises_Exception f" "seq xs w = Raise e w'"
  shows "is_Exception e"
  using assms
  by (induction xs arbitrary: w) (auto simp: step_raises_Exception_def split: result.splits)

lemma try_raises_Exception:
  "create_app_directory_try name dp w = Raise e w' \<Longrightarrow> is_Exception e"
  using seq_raises_Exception[OF steps_raise_Exception] by (simp add: try_as_steps)

subsection \<open>What the statements print\<close>

lemma makedirs_trace: "trace (world_of (makedirs p w)) = trace w"
  by (auto simp: makedirs_def os_raise_def split: option.splits prod.splits)

lemma copyfile_trace: "trace (world_of (copyfile src dst w)) = trace w"
  by (auto simp: copyfile_def os_raise_def split: option.splits sum.splits node.splits)

lemma append_text_trace: "trace (world_of (append_text p s w)) = trace w"
  by (auto simp: append_text_def os_raise_def split: option.splits sum.splits node.splits)

lemma import_module_trace: "trace (world_of (import_module m w)) = trace w"
  by (auto simp: import_module_def os_raise_def split: option.splits)

lemma seq_trace:
  assumes "\<forall>f\<in>set xs. \<forall>w. trace (world_of (f w)) = trace w"
  shows "trace (world_of (seq xs w)) = trace w"
  using assms
proof (induction xs arbitrary: w)
  case Nil
  then show ?case by simp
next
  case (Cons f xs)
  from Cons.prems have f: "trace (world_of (f w)) = trace w" by simp
  show ?case
  proof (cases "f w")
    case (Raise e w1)
    with f show ?thesis by simp
  next
    case (Return u w1)
    with f Cons.IH[of w1] Cons.prems show ?thesis by simp
  qed
qed

lemma copy_templates_trace:
  "(\<exists>e wx. seq (copy_templates name dp d) w = Raise e wx \<and> trace wx = trace w) \<or>
   (\<exists>w' s. seq (copy_templates name dp d) w = Return () w' \<and>
            trace w' = trace w @ [Print (CHR ''C'' # s)])"
proof -
  let ?qs = "butlast (copy_templates name dp d)"
  let ?p = "\<lambda>w. Return ()
             (print (''Created a new '' @ framework_name w @ '' app at '' @ dp) w)"
  have split: "copy_templates name dp d = ?qs @ [?p]"
    by (simp add: copy_templates_def Let_def)
  have quiet: "\<forall>f\<in>set ?qs. \<forall>w. trace (world_of (f w)) = trace w"
    by (simp add: copy_templates_def Let_def makedirs_trace copyfile_trace append_text_trace)
  from seq_trace[OF quiet] have t: "trace (world_of (seq ?qs w)) = trace w" .
  show ?thesis
  proof (cases "seq ?qs w")
    case (Raise e wx)
    with t have "seq (?qs @ [?p]) w = Raise e wx \<and> trace wx = trace w"
      by (simp add: seq_append)
    with split show ?thesis by simp
  next
    case (Return u w1)
    with t have "seq (?qs @ [?p]) w =
        Return () (print (''Created a new '' @ framework_name w1 @ '' app at '' @ dp) w1) \<and>
        trace w1 = trace w"
      by (simp add: seq_append)
    with split show ?thesis by (simp add: print_def emit_def)
  qed
qed

lemma create_app_directory_prints:
  "\<exists>w' c s. create_app_directory name w = Return () w' \<and>
             trace w' = trace w @ [Print (c # s)] \<and> c \<noteq> CHR ''P''"
proof (cases "path_exists w (path_join (cwd w) name)")
  case True
  then show ?thesis by (simp add: create_app_directory_def print_def emit_def)
next
  case False
  let ?dp = "path_join (cwd w) name"
  have "(\<exists>e wx. create_app_directory_try name ?dp w = Raise e wx \<and> trace wx = trace w) \<or>
        (\<exists>w' s. create_app_directory_try name ?dp w = Return () w' \<and>
                 trace w' = trace w @ [Print (CHR ''C'' # s)])"
  proof (cases "makedirs ?dp w")
    case (Raise e w1)
    with makedirs_trace[of ?dp w] show ?thesis
      by (simp add: create_app_directory_try_def)
  next
    case (Return u w1)
    with makedirs_trace[of ?dp w] have t1: "trace w1 = trace w" by simp
    show ?thesis
    proof (cases "import_module (MODULE_NAME w1 @ ''.templates'') w1")
      case R: (Raise e w2)
      with import_module_trace[of "MODULE_NAME w1 @ ''.templates''" w1] t1 Return show ?thesis
        by (simp add: create_app_directory_try_def)
    next
      case R: (Return d w2)
      with import_module_trace[of "MODULE_NAME w1 @ ''.templates''" w1] t1
      have t2: "trace w2 = trace w" by simp
      from copy_templates_trace[of name ?dp d w2] Return R t2 show ?thesis
        by (simp add: create_app_directory_try_def)
    qed
  qed
  then show ?thesis
  proof (elim disjE exE conjE)
    fix e wx
    assume r: "create_app_directory_try name ?dp w = Raise e wx" and t: "trace wx = trace w"
    from try_raises_Exception[OF r] r t False show ?thesis
      by (simp add: create_app_directory_def Let_def print_def emit_def)
  next
    fix w' s
    assume "create_app_directory_try name ?dp w = Return () w'"
      "trace w' = trace w @ [Print (CHR ''C'' # s)]"
    with False show ?thesis
      by (simp add: create_app_directory_def Let_def)
  qed
qed

lemma usage_new_P: "\<exists>s. usage_new w = CHR ''P'' # s"
  by (simp add: usage_new_def)

lemma create_app_directory_not_usage:
  "create_app_directory name w \<noteq> Return () (print (usage_new w) w)"
proof
  assume a: "create_app_directory name w = Return () (print (usage_new w) w)"
  from create_app_directory_prints[of name w] obtain w' c s where
    "create_app_directory name w = Return () w'" "trace w' = trace w @ [Print (c # s)]"
    "c \<noteq> CHR ''P''" by blast
  with a have "trace (print (usage_new w) w) = trace w @ [Print (c # s)]" by simp
  with usage_new_P[of w] \<open>c \<noteq> CHR ''P''\<close> show False
    by (auto simp: print_def emit_def)
qed

lemma create_app_directory_returns:
  "create_app_directory name w \<noteq> Raise e w'"
  using create_app_directory_prints[of name w] by auto

subsection \<open>What the statements after the append leave of a file\<close>

lemma first_four:
  assumes "seq (take 4 (create_app_directory_steps name dp w)) w = Return u w4"
  shows "\<exists>d w1 w3. modules w (MODULE_NAME w @ ''.templates'') = Some d \<and>
           makedirs dp w = Return () w1 \<and>
           copyfile (resource d ''settings.py'') (path_join dp ''settings.py'') w1 = Return () w3 \<and>
           append_text (path_join dp ''settings.py'') (app_settings name) w3 = Return () w4 \<and>
           drop 4 (create_app_directory_steps name dp w) = drop 2 (copy_templates name dp d)"
proof (cases "modules w (MODULE_NAME w @ ''.templates'')")
  case None
  with assms obtain w1 d w2 where m: "makedirs dp w = Return () w1"
    and i: "import_module (MODULE_NAME w1 @ ''.templates'') w1 = Return d w2"
    by (auto simp: create_app_directory_steps_def split: result.splits)
  from makedirs_fields[OF m] import_module_ReturnE(2)[OF i] None show ?thesis
    by (simp add: MODULE_NAME_def)
next
  case (Some d)
  then have steps: "take 4 (create_app_directory_steps name dp w) =
      [makedirs dp,
       (\<lambda>w1. case import_module (MODULE_NAME w1 @ ''.templates'') w1 of
               Raise e w2 \<Rightarrow> Raise e w2
             | Return _ w2 \<Rightarrow> Return () w2),
       copyfile (resource d ''settings.py'') (path_join dp ''settings.py''),
       append_text (path_join dp ''settings.py'') (app_settings name)]"
    and rest: "drop 4 (create_app_directory_steps name dp w) = drop 2 (copy_templates name dp d)"
    by (simp_all add: create_app_directory_steps_def copy_templates_def Let_def)
  from assms[unfolded steps] obtain w1 where m: "makedirs dp w = Return () w1"
    and r1: "seq [(\<lambda>w1. case import_module (MODULE_NAME w1 @ ''.templates'') w1 of
               Raise e w2 \<Rightarrow> Raise e w2
             | Return _ w2 \<Rightarrow> Return () w2),
       copyfile (resource d ''settings.py'') (path_join dp ''settings.py''),
       append_text (path_join dp ''settings.py'') (app_settings name)] w1 = Return u w4"
    by (rule seq_ConsE)
  from r1 obtain w2 where i: "(case import_module (MODULE_NAME w1 @ ''.templates'') w1 of
               Raise e w2 \<Rightarrow> Raise e w2
             | Return _ w2 \<Rightarrow> Return () w2) = Return () w2"
    and r2: "seq [copyfile (resource d ''settings.py'') (path_join dp ''settings.py''),
       append_text (path_join dp ''settings.py'') (app_settings name)] w2 = Return u w4"
    by (rule seq_ConsE)
  from i obtain d' where "import_module (MODULE_NAME w1 @ ''.templates'') w1 = Return d' w2"
    by (auto split: result.splits)
  from import_module_ReturnE(1)[OF this] have w2: "w2 = w1" .
  from r2 obtain w3 where c: "copyfile (resource d ''settings.py'') (path_join dp ''settings.py'') w2 = Return () w3"
    and r3: "seq [append_text (path_join dp ''settings.py'') (app_settings name)] w3 = Return u w4"
    by (rule seq_ConsE)
  from r3 have a: "append_text (path_join dp ''settings.py'') (app_settings name) w3 = Return () w4"
    by (auto split: result.splits)
  from Some m c a w2 rest show ?thesis by simp
qed

lemma seq_keeps_file:
  assumes "\<forall>f\<in>set xs. \<forall>w c'. fs w q = Some (File c') \<longrightarrow>
             fs (world_of (f w)) q = Some (File c') \<and> keeps_dirs (fs w) (fs (world_of (f w)))"
    and "fs w q = Some (File c)"
  shows "fs (world_of (seq xs w)) q = Some (File c) \<and> keeps_dirs (fs w) (fs (world_of (seq xs w)))"
  using assms
proof (induction xs arbitrary: w)
  case Nil
  then show ?case by simp
next
  case (Cons f xs)
  from Cons.prems have f: "fs (world_of (f w)) q = Some (File c)"
    "keeps_dirs (fs w) (fs (world_of (f w)))" by simp_all
  show ?case
  proof (cases "f w")
    case (Raise e w1)
    with f show ?thesis by simp
  next
    case (Return u w1)
    with f have w1: "fs w1 q = Some (File c)" "keeps_dirs (fs w) (fs w1)" by simp_all
    from Cons.IH[of w1] Cons.prems(1) w1(1)
    have "fs (world_of (seq xs w1)) q = Some (File c) \<and>
          keeps_dirs (fs w1) (fs (world_of (seq xs w1)))" by simp
    with w1(2) Return show ?thesis by (auto intro: keeps_dirs_trans)
  qed
qed

lemma makedirs_keeps_file:
  "fs w q = Some (File c) \<Longrightarrow>
   fs (world_of (makedirs p w)) q = Some (File c) \<and> keeps_dirs (fs w) (fs (world_of (makedirs p w)))"
proof (cases "makedirs p w")
  case (Return u w')
  assume "fs w q = Some (File c)"
  with makedirs_ReturnE(3)[OF Return] Return show ?thesis
    by (simp add: keeps_dirs_def)
next
  case (Raise e w')
  assume "fs w q = Some (File c)"
  with makedirs_RaiseE(2)[OF Raise] Raise show ?thesis
    by (simp add: keeps_dirs_def)
qed

lemma copyfile_keeps_file:
  assumes "dir_name x" "q \<noteq> []" "last q \<noteq> x" "fs w q = Some (File c)"
  shows "fs (world_of (copyfile src (path_join a x) w)) q = Some (File c) \<and>
         keeps_dirs (fs w) (fs (world_of (copyfile src (path_join a x) w)))"
proof (cases "copyfile src (path_join a x) w")
  case (Raise e w')
  from copyfile_RaiseE(1)[OF Raise] Raise assms(4) show ?thesis by simp
next
  case (Return u w')
  from copyfile_ReturnE[OF Return] obtain c' kd where
    kd: "resolve w (path_join a x) = Inr kd" "fs w kd \<noteq> Some Dir"
    and w': "w' = w\<lparr>fs := (fs w)(kd \<mapsto> File c')\<rparr>" by blast
  from resolve_join_last[OF assms(1) kd(1)] assms(3) have "kd \<noteq> q" by auto
  with kd(2) w' Return assms(4) show ?thesis
    by (auto simp: keeps_dirs_def)
qed

lemma rest_keeps_file:
  assumes "q \<noteq> []" "last q = ''settings.py''"
  shows "\<forall>f\<in>set (drop 2 (copy_templates name dp d)). \<forall>w c'. fs w q = Some (File c') \<longrightarrow>
           fs (world_of (f w)) q = Some (File c') \<and> keeps_dirs (fs w) (fs (world_of (f w)))"
  using assms
  by (simp add: copy_templates_def Let_def makedirs_keeps_file copyfile_keeps_file
        dir_name_templates print_def emit_def)

lemma create_app_directory_fs:
  assumes "\<not> path_exists w (path_join (cwd w) name)"
  shows "fs (world_of (create_app_directory name w)) =
         fs (world_of (create_app_directory_try name (path_join (cwd w) name) w))"
proof (cases "create_app_directory_try name (path_join (cwd w) name) w")
  case (Return u w')
  with assms show ?thesis by (simp add: create_app_directory_def Let_def)
next
  case (Raise e w')
  with try_raises_Exception[OF Raise] assms show ?thesis
    by (simp add: create_app_directory_def Let_def print_def emit_def)
qed

section \<open>Properties of the scaffold\<close>

lemma makedirs_new_dir:
  assumes "dir_name x" "resolve w a = Inr kc" "fs w kc = Some Dir"
    and "makedirs (path_join a x) w = Return u w1"
  shows "w1 = w\<lparr>fs := (fs w)(kc @ [x] \<mapsto> Dir)\<rparr>"
    and "resolve w1 (path_join a x) = Inr (kc @ [x])"
proof -
  show w1: "w1 = w\<lparr>fs := (fs w)(kc @ [x] \<mapsto> Dir)\<rparr>"
    using assms by (rule makedirs_child)
  have "keeps_dirs (fs w) (fs w1)"
    unfolding w1 by (simp add: keeps_dirs_def)
  from resolve_keeps[OF assms(2) this] assms(3) w1
  show "resolve w1 (path_join a x) = Inr (kc @ [x])"
    by (intro resolve_join[OF assms(1)]) simp_all
qed

lemma no_orphans_below:
  assumes wf: "\<forall>q. fs w q \<noteq> None \<and> q \<noteq> [] \<longrightarrow> fs w (butlast q) \<noteq> None"
    and "fs w k = None"
  shows "fs w (k @ zs) = None"
proof (induction zs rule: rev_induct)
  case Nil
  with assms(2) show ?case by simp
next
  case (snoc z zs)
  show ?case
  proof (rule ccontr)
    assume "fs w (k @ zs @ [z]) \<noteq> None"
    with wf have "fs w (butlast (k @ zs @ [z])) \<noteq> None" by blast
    then have "fs w (k @ zs) \<noteq> None" by (simp add: butlast_append)
    with snoc show False by simp
  qed
qed

text \<open>
  Claim C3. When the target does not exist, the framework's six templates are installed
  with the contents \<open>tmpl\<close>, and every step of the \<open>try\<close> body succeeds,
  \<open>create_app_directory\<close> returns, and what it has done is: \<open>makedirs\<close> of the
  target, then exactly the entries of \<open>scaffold_tree\<close> written below it, then the
  closing message. For a name of one component in a working directory \<open>kc\<close> the new
  world is the old one with the directory \<open>kc/name\<close> and the tree added; in a file tree
  where every entry has its parent, the new directory holds the tree and nothing else.
\<close>

theorem create_app_directory_new_tree:
  assumes "\<not> path_exists w (path_join (cwd w) name)"
    and "\<forall>f\<in>set template_files. template_of w f = Some (tmpl f)"
    and "create_app_directory_try name (path_join (cwd w) name) w = Return () w'"
  shows "create_app_directory name w = Return () w' \<and>
         (\<exists>w1 k. makedirs (path_join (cwd w) name) w = Return () w1 \<and>
                 resolve w1 (path_join (cwd w) name) = Inr k \<and> fs w1 k = Some Dir \<and>
                 w' = w1\<lparr>fs := fs w1 ++ scaffold_tree k tmpl name,
                          trace := trace w @
                            [Print (''Created a new '' @ framework_name w @ '' app at '' @
                                    path_join (cwd w) name)]\<rparr>) \<and>
         (dir_name name \<longrightarrow>
            (\<forall>kc. resolve w (cwd w) = Inr kc \<and> fs w kc = Some Dir \<longrightarrow>
               w' = w\<lparr>fs := (fs w)(kc @ [name] \<mapsto> Dir) ++ scaffold_tree (kc @ [name]) tmpl name,
                        trace := trace w @
                          [Print (''Created a new '' @ framework_name w @ '' app at '' @
                                  path_join (cwd w) name)]\<rparr> \<and>
               ((\<forall>q. fs w q \<noteq> None \<and> q \<noteq> [] \<longrightarrow> fs w (butlast q) \<noteq> None) \<longrightarrow>
                (\<forall>zs. zs \<noteq> [] \<longrightarrow>
                   fs w' (kc @ [name] @ zs) = scaffold_tree (kc @ [name]) tmpl name (kc @ [name] @ zs)))))"
proof (intro conjI impI allI)
  show "create_app_directory name w = Return () w'"
    using assms(1,3) by (simp add: create_app_directory_def)
next
  from scaffold_run[OF assms(2,3)]
  show "\<exists>w1 k. makedirs (path_join (cwd w) name) w = Return () w1 \<and>
                 resolve w1 (path_join (cwd w) name) = Inr k \<and> fs w1 k = Some Dir \<and>
                 w' = w1\<lparr>fs := fs w1 ++ scaffold_tree k tmpl name,
                          trace := trace w @
                            [Print (''Created a new '' @ framework_name w @ '' app at '' @
                                    path_join (cwd w) name)]\<rparr>"
    by blast
next
  fix kc
  assume dn: "dir_name name" and kc: "resolve w (cwd w) = Inr kc \<and> fs w kc = Some Dir"
  from scaffold_run[OF assms(2,3)] obtain w1 k where
    m: "makedirs (path_join (cwd w) name) w = Return () w1"
    and k: "resolve w1 (path_join (cwd w) name) = Inr k"
    and w': "w' = w1\<lparr>fs := fs w1 ++ scaffold_tree k tmpl name,
                          trace := trace w @
                            [Print (''Created a new '' @ framework_name w @ '' app at '' @
                                    path_join (cwd w) name)]\<rparr>"
    by blast
  note nd = makedirs_new_dir[OF dn conjunct1[OF kc] conjunct2[OF kc] m]
  from nd(2) k have keq: "k = kc @ [name]" by simp
  show eq: "w' = w\<lparr>fs := (fs w)(kc @ [name] \<mapsto> Dir) ++ scaffold_tree (kc @ [name]) tmpl name,
                        trace := trace w @
                          [Print (''Created a new '' @ framework_name w @ '' app at '' @
                                  path_join (cwd w) name)]\<rparr>"
    unfolding w' keq by (subst nd(1))+ simp
  fix zs :: "string list"
  assume wf: "\<forall>q. fs w q \<noteq> None \<and> q \<noteq> [] \<longrightarrow> fs w (butlast q) \<noteq> None" and zs: "zs \<noteq> []"
  have "resolve w (path_join (cwd w) name) = Inr (kc @ [name])"
    using dn kc by (intro resolve_join) simp_all
  with assms(1) have "fs w (kc @ [name]) = None"
    by (simp add: path_exists_def)
  from no_orphans_below[OF wf this, of zs] have "fs w (kc @ [name] @ zs) = None" by simp
  with zs show "fs w' (kc @ [name] @ zs) = scaffold_tree (kc @ [name]) tmpl name (kc @ [name] @ zs)"
    unfolding eq by (simp add: map_add_def split: option.splits)
qed

text \<open>
  Claim C4. The one check before the \<open>try\<close> statement: when the target path exists,
  \<open>create_app_directory\<close> prints its message and returns; the file tree and everything
  else in the world but the trace are as before.
\<close>

theorem create_app_directory_existing:
  assumes "path_exists w (path_join (cwd w) name)"
  shows "create_app_directory name w =
         Return () (w\<lparr>trace := trace w @ [Print ''app name already exists at this directory'']\<rparr>)"
  using assms by (simp add: create_app_directory_def print_def emit_def)

text \<open>
  Claim C9. \<open>create_app_directory\<close> returns in every world, whatever fails. When the
  target does not exist, the first \<open>i\<close> statements of the \<open>try\<close> body have run and the
  next one raises \<open>e\<close>, the call returns after printing the error message with the text
  of \<open>e\<close>, in the world the failing statement left; every file and directory that was
  there after any of the earlier statements is still there.
\<close>

theorem create_app_directory_never_raises:
  "(\<exists>w'. create_app_directory name w = Return () w') \<and>
   (\<forall>i wi e wx.
      \<not> path_exists w (path_join (cwd w) name) \<and>
      i < length (create_app_directory_steps name (path_join (cwd w) name) w) \<and>
      seq (take i (create_app_directory_steps name (path_join (cwd w) name) w)) w = Return () wi \<and>
      (create_app_directory_steps name (path_join (cwd w) name) w ! i) wi = Raise e wx
      \<longrightarrow>
      create_app_directory name w =
        Return () (print (''An error occurred while creating the directory: '' @ str_exn e) wx) \<and>
      (\<forall>j wj q.
         j \<le> i \<and>
         seq (take j (create_app_directory_steps name (path_join (cwd w) name) w)) w = Return () wj \<and>
         fs wj q \<noteq> None
         \<longrightarrow> fs wx q \<noteq> None))"
proof (intro conjI allI impI)
  show "\<exists>w'. create_app_directory name w = Return () w'"
  proof (cases "create_app_directory_try name (path_join (cwd w) name) w")
    case (Return u w')
    then show ?thesis by (simp add: create_app_directory_def Let_def)
  next
    case (Raise e w')
    with try_raises_Exception[OF Raise] show ?thesis
      by (simp add: create_app_directory_def Let_def)
  qed
next
  fix i wi e wx
  let ?dp = "path_join (cwd w) name"
  let ?steps = "create_app_directory_steps name ?dp w"
  assume a: "\<not> path_exists w ?dp \<and> i < length ?steps \<and>
      seq (take i ?steps) w = Return () wi \<and> (?steps ! i) wi = Raise e wx"
  then have "seq ?steps w = Raise e wx"
    by (intro seq_fails_at[of i _ _ "()" wi]) simp_all
  then have fail: "create_app_directory_try name ?dp w = Raise e wx"
    by (simp add: try_as_steps)
  with try_raises_Exception[OF fail] a
  show "create_app_directory name w =
        Return () (print (''An error occurred while creating the directory: '' @ str_exn e) wx)"
    by (simp add: create_app_directory_def Let_def)
  fix j wj q
  assume b: "j \<le> i \<and> seq (take j ?steps) w = Return () wj \<and> fs wj q \<noteq> None"
  have "take j (take i ?steps) = take j ?steps"
    using b by (simp add: min_def)
  then have "take j ?steps @ drop j (take i ?steps) = take i ?steps"
    using append_take_drop_id[of j "take i ?steps"] by simp
  then have "seq (take i ?steps) w = seq (take j ?steps @ drop j (take i ?steps)) w"
    by simp
  with a b have mid: "seq (drop j (take i ?steps)) wj = Return () wi"
    by (simp add: seq_append)
  have "set (drop j (take i ?steps)) \<subseteq> set ?steps"
    using set_drop_subset[of j "take i ?steps"] set_take_subset[of i ?steps] by blast
  then have "\<forall>f\<in>set (drop j (take i ?steps)). step_grows f"
    using steps_grow[of name ?dp w] by blast
  from seq_grows[OF this mid] b have "fs wi q \<noteq> None" by simp
  moreover have "step_grows (?steps ! i)"
    using steps_grow[of name ?dp w] a by simp
  ultimately have "fs (world_of ((?steps ! i) wi)) q \<noteq> None"
    by (rule step_growsD[rotated])
  with a show "fs wx q \<noteq> None" by simp
qed

text \<open>
  Claim C10, as amended. When the target does not exist and the first four statements of
  the \<open>try\<close> body return (the directory is made, the templates module is imported,
  \<open>settings.py\<close> is copied and the lines are appended to it), then for every name,
  whatever the later statements do, \<open>settings.py\<close> in the new directory holds, when
  \<open>create_app_directory\<close> returns, the template followed by a line feed, the comment
  line and the line \<open>APP_NAME = '<name>'\<close> with the name as it was given; it is not the
  template itself.
\<close>

theorem settings_py_appended:
  assumes "\<not> path_exists w (path_join (cwd w) name)"
    and "template_of w ''settings.py'' = Some c"
    and "seq (take 4 (create_app_directory_steps name (path_join (cwd w) name) w)) w = Return () w4"
  shows "read_file (world_of (create_app_directory name w))
           (path_join (path_join (cwd w) name) ''settings.py'') =
           Some (c @ [CHR 0x0A] @ ''# App-specific settings'' @ [CHR 0x0A] @
                 ''APP_NAME = '' @ [CHR 0x27] @ name @ [CHR 0x27] @ [CHR 0x0A]) \<and>
         read_file (world_of (create_app_directory name w))
           (path_join (path_join (cwd w) name) ''settings.py'') \<noteq>
           template_of w ''settings.py''"
proof -
  let ?dp = "path_join (cwd w) name"
  let ?sp = "path_join ?dp ''settings.py''"
  let ?steps = "create_app_directory_steps name ?dp w"
  from first_four[OF assms(3)] obtain d w1 w3 where
    md: "modules w (MODULE_NAME w @ ''.templates'') = Some d"
    and m: "makedirs ?dp w = Return () w1"
    and cp: "copyfile (resource d ''settings.py'') ?sp w1 = Return () w3"
    and ap: "append_text ?sp (app_settings name) w3 = Return () w4"
    and rest: "drop 4 ?steps = drop 2 (copy_templates name ?dp d)"
    by blast
  note mk = makedirs_ReturnE[OF m]
  from mk(1) obtain k where k: "resolve w1 ?dp = Inr k" "fs w1 k = Some Dir" by blast
  have kd0: "keeps_dirs (fs w) (fs w1)"
    unfolding keeps_dirs_def using mk(3) by auto
  from template_source[OF assms(2) md dir_name_templates(1)] obtain ks where
    ks: "resolve w (resource d ''settings.py'') = Inr ks" "fs w ks = Some (File c)"
    by blast
  have same: "fs w1 ks = fs w ks"
    using mk(3)[of ks] ks(2) by simp
  let ?q = "k @ [''settings.py'']"
  note c1 = copy_step[OF cp dir_name_templates(1) k ks kd0 same]
  have kd3: "keeps_dirs (fs w1) (fs w3)"
    unfolding c1(1) using c1(2) by (simp add: keeps_dirs_def)
  have r1: "resolve w1 ?sp = Inr ?q"
    using dir_name_templates(1) k by (rule resolve_join)
  have r3: "resolve w3 ?sp = Inr ?q"
    using r1 kd3 by (rule resolve_keeps)
  have f3: "fs w3 ?q = Some (File c)"
    unfolding c1(1) by simp
  have w4: "w4 = w3\<lparr>fs := (fs w3)(?q \<mapsto> File (c @ app_settings name))\<rparr>"
    using ap r3 f3 by (rule append_text_ReturnE)
  have kd4: "keeps_dirs (fs w3) (fs w4)"
    unfolding w4 using f3 by (simp add: keeps_dirs_def)
  have r4: "resolve w4 ?sp = Inr ?q"
    using r3 kd4 by (rule resolve_keeps)
  have f4: "fs w4 ?q = Some (File (c @ app_settings name))"
    unfolding w4 by simp
  have "?steps = take 4 ?steps @ drop 4 ?steps" by simp
  then have "seq ?steps w = seq (take 4 ?steps @ drop 4 ?steps) w" by simp
  also have "\<dots> = seq (drop 2 (copy_templates name ?dp d)) w4"
    using assms(3) rest by (simp add: seq_append)
  finally have run: "create_app_directory_try name ?dp w = seq (drop 2 (copy_templates name ?dp d)) w4"
    by (simp add: try_as_steps)
  have "?q \<noteq> []" "last ?q = ''settings.py''" by simp_all
  from seq_keeps_file[OF rest_keeps_file[OF this] f4]
  have fin: "fs (world_of (seq (drop 2 (copy_templates name ?dp d)) w4)) ?q =
               Some (File (c @ app_settings name))"
    "keeps_dirs (fs w4) (fs (world_of (seq (drop 2 (copy_templates name ?dp d)) w4)))"
    by simp_all
  let ?wf = "world_of (create_app_directory name w)"
  from create_app_directory_fs[OF assms(1)] run fin
  have ff: "fs ?wf ?q = Some (File (c @ app_settings name))" "keeps_dirs (fs w4) (fs ?wf)"
    by simp_all
  from resolve_keeps[OF r4 ff(2)] ff(1)
  have "read_file ?wf ?sp = Some (c @ app_settings name)"
    by (simp add: read_file_def)
  with assms(2) show ?thesis
    by (simp add: app_settings_def)
qed

section \<open>The scaffold on the sample world\<close>

lemmas eval_defs = create_app_directory_try_def copy_templates_def makedirs_def copyfile_def
  append_text_def import_module_def resource_def MODULE_NAME_def path_join_def resolve_def
  step_key_def os_raise_def print_def emit_def Let_def lower_def lower_char_def char_of_eq_iff
  app_settings_def

lemma example_not_exists:
  "\<not> path_exists example_world (path_join (cwd example_world) ''myapp'')"
  by (simp add: path_exists_def example_world_def eval_defs)

lemma example_templates_installed:
  "\<forall>f\<in>set template_files. template_of example_world f = Some (example_templates f)"
  by (simp add: template_files_def template_of_def read_file_def example_templates_def
        example_world_def eval_defs)

lemma example_run:
  "create_app_directory_try ''myapp'' (path_join (cwd example_world) ''myapp'') example_world =
   Return ()
     (example_world\<lparr>fs := (fs example_world)([''home'', ''u'', ''myapp''] \<mapsto> Dir)
                       ++ scaffold_tree [''home'', ''u'', ''myapp''] example_templates ''myapp'',
        trace := [Print ''Created a new Wayland app at /home/u/myapp'']\<rparr>)"
  by (simp add: example_world_def eval_defs scaffold_tree_def example_templates_def)

lemma example_cwd:
  "resolve example_world (cwd example_world) = Inr [''home'', ''u''] \<and>
   fs example_world [''home'', ''u''] = Some Dir"
  by (simp add: example_world_def eval_defs)

lemma example_parents:
  "\<forall>q. fs example_world q \<noteq> None \<and> q \<noteq> [] \<longrightarrow> fs example_world (butlast q) \<noteq> None"
  by (auto simp: example_world_def split: if_splits)

theorem create_app_directory_new_tree_witness:
  "create_app_directory ''myapp'' example_world =
   Return ()
     (example_world\<lparr>fs := (fs example_world)([''home'', ''u'', ''myapp''] \<mapsto> Dir)
                       ++ scaffold_tree [''home'', ''u'', ''myapp''] example_templates ''myapp'',
        trace := [Print ''Created a new Wayland app at /home/u/myapp'']\<rparr>) \<and>
   ((fs example_world)([''home'', ''u'', ''myapp''] \<mapsto> Dir)
      ++ scaffold_tree [''home'', ''u'', ''myapp''] example_templates ''myapp'')
     [''home'', ''u'', ''myapp'', ''app'', ''static'', ''logo.png''] = Some (File ''PNG'') \<and>
   ((fs example_world)([''home'', ''u'', ''myapp''] \<mapsto> Dir)
      ++ scaffold_tree [''home'', ''u'', ''myapp''] example_templates ''myapp'')
     [''home'', ''u'', ''myapp'', ''README''] = None"
proof -
  note t = create_app_directory_new_tree[OF example_not_exists example_templates_installed example_run]
  have dn: "dir_name ''myapp''" by (simp add: dir_name_def)
  from t have a: "create_app_directory ''myapp'' example_world =
   Return ()
     (example_world\<lparr>fs := (fs example_world)([''home'', ''u'', ''myapp''] \<mapsto> Dir)
                       ++ scaffold_tree [''home'', ''u'', ''myapp''] example_templates ''myapp'',
        trace := [Print ''Created a new Wayland app at /home/u/myapp'']\<rparr>)"
    by blast
  from t dn example_cwd example_parents
  have b: "\<forall>zs. zs \<noteq> [] \<longrightarrow>
     fs (example_world\<lparr>fs := (fs example_world)([''home'', ''u'', ''myapp''] \<mapsto> Dir)
                       ++ scaffold_tree [''home'', ''u'', ''myapp''] example_templates ''myapp'',
        trace := [Print ''Created a new Wayland app at /home/u/myapp'']\<rparr>)
        ([''home'', ''u''] @ [''myapp''] @ zs)
     = scaffold_tree ([''home'', ''u''] @ [''myapp'']) example_templates ''myapp''
         ([''home'', ''u''] @ [''myapp''] @ zs)"
    by blast
  from b[rule_format, of "[''app'', ''static'', ''logo.png'']"]
       b[rule_format, of "[''README'']"] a
  show ?thesis
    by (simp add: scaffold_tree_def example_templates_def)
qed

theorem create_app_directory_existing_witness:
  "create_app_directory ''blog'' example_world =
   Return () (example_world\<lparr>trace := [Print ''app name already exists at this directory'']\<rparr>)"
proof -
  have "path_exists example_world (path_join (cwd example_world) ''blog'')"
    by (simp add: path_exists_def example_world_def eval_defs)
  from create_app_directory_existing[OF this] show ?thesis
    by (simp add: example_world_def)
qed

lemma quoted_not_exists:
  "\<not> path_exists example_world (path_join (cwd example_world) (''bob'' @ [CHR 0x27] @ ''s''))"
  by (simp add: path_exists_def example_world_def eval_defs)

lemma example_settings_template:
  "template_of example_world ''settings.py'' = Some ''DEBUG = True''"
  by (simp add: template_of_def read_file_def example_world_def eval_defs)

lemma quoted_first_four:
  "seq (take 4 (create_app_directory_steps (''bob'' @ [CHR 0x27] @ ''s'')
          (path_join (cwd example_world) (''bob'' @ [CHR 0x27] @ ''s'')) example_world))
     example_world =
   Return ()
     (example_world\<lparr>fs := (fs example_world)
        ([''home'', ''u'', ''bob'' @ [CHR 0x27] @ ''s''] \<mapsto> Dir,
         [''home'', ''u'', ''bob'' @ [CHR 0x27] @ ''s'', ''settings.py''] \<mapsto>
           File (''DEBUG = True'' @ app_settings (''bob'' @ [CHR 0x27] @ ''s'')))\<rparr>)"
  by (simp add: create_app_directory_steps_def example_world_def eval_defs)

theorem settings_py_appended_witness:
  "read_file (world_of (create_app_directory (''bob'' @ [CHR 0x27] @ ''s'') example_world))
     (''/home/u/bob'' @ [CHR 0x27] @ ''s/settings.py'') =
   Some (''DEBUG = True'' @ [CHR 0x0A] @ ''# App-specific settings'' @ [CHR 0x0A] @
         ''APP_NAME = '' @ [CHR 0x27] @ ''bob'' @ [CHR 0x27] @ ''s'' @ [CHR 0x27] @ [CHR 0x0A]) \<and>
   template_of example_world ''settings.py'' = Some ''DEBUG = True''"
  using settings_py_appended[OF quoted_not_exists example_settings_template quoted_first_four]
    example_settings_template
  by (simp add: path_join_def example_world_def)

text \<open>
  Claim C10 as stated fails where the append fails: \<open>settings.py\<close> has been copied and
  stays in the new directory, and it reads as the template, byte for byte.
\<close>

theorem settings_py_append_fails_counterexample:
  "create_app_directory ''myapp'' world_disk_full =
     Return ()
       (world_disk_full
          \<lparr>fs := (fs world_disk_full)
             ([''home'', ''u'', ''myapp''] \<mapsto> Dir,
              [''home'', ''u'', ''myapp'', ''settings.py''] \<mapsto> File ''DEBUG = True''),
           trace := [Print (''An error occurred while creating the directory: '' @
                            ''[Errno 28] No space left on device'')]\<rparr>) \<and>
   read_file (world_of (create_app_directory ''myapp'' world_disk_full))
     ''/home/u/myapp/settings.py'' = Some ''DEBUG = True'' \<and>
   template_of world_disk_full ''settings.py'' = Some ''DEBUG = True''"
proof -
  have run: "create_app_directory ''myapp'' world_disk_full =
     Return ()
       (world_disk_full
          \<lparr>fs := (fs world_disk_full)
             ([''home'', ''u'', ''myapp''] \<mapsto> Dir,
              [''home'', ''u'', ''myapp'', ''settings.py''] \<mapsto> File ''DEBUG = True''),
           trace := [Print (''An error occurred while creating the directory: '' @
                            ''[Errno 28] No space left on device'')]\<rparr>)"
    by (simp add: create_app_directory_def path_exists_def world_disk_full_def
          example_world_def eval_defs)
  have "read_file (world_of (create_app_directory ''myapp'' world_disk_full))
          ''/home/u/myapp/settings.py'' = Some ''DEBUG = True''"
    unfolding run
    by (simp add: read_file_def world_disk_full_def example_world_def eval_defs)
  moreover have "template_of world_disk_full ''settings.py'' = Some ''DEBUG = True''"
    by (simp add: template_of_def read_file_def world_disk_full_def example_world_def eval_defs)
  ultimately show ?thesis using run by simp
qed

lemma without_templates_not_exists:
  "\<not> path_exists world_without_templates (path_join (cwd world_without_templates) ''myapp'')"
  by (simp add: path_exists_def world_without_templates_def example_world_def eval_defs)

lemma without_templates_steps:
  "create_app_directory_steps ''myapp'' (path_join (cwd world_without_templates) ''myapp'')
     world_without_templates =
   [makedirs ''/home/u/myapp'',
    (\<lambda>w1. case import_module (MODULE_NAME w1 @ ''.templates'') w1 of
             Raise e w2 \<Rightarrow> Raise e w2
           | Return _ w2 \<Rightarrow> Return () w2)]"
  by (simp add: create_app_directory_steps_def world_without_templates_def example_world_def
        eval_defs)

theorem create_app_directory_never_raises_witness:
  "create_app_directory ''myapp'' world_without_templates =
   Return ()
     (world_without_templates
        \<lparr>fs := (fs world_without_templates)([''home'', ''u'', ''myapp''] \<mapsto> Dir),
         trace := [Print (''An error occurred while creating the directory: No module named ''
                          @ [CHR 0x27] @ ''wayland.templates'' @ [CHR 0x27])]\<rparr>) \<and>
   ((fs world_without_templates)([''home'', ''u'', ''myapp''] \<mapsto> Dir))
     [''home'', ''u'', ''myapp''] \<noteq> None"
proof -
  let ?w = world_without_templates
  let ?wi = "?w\<lparr>fs := (fs ?w)([''home'', ''u'', ''myapp''] \<mapsto> Dir)\<rparr>"
  let ?e = "Exn ModuleNotFoundError (''No module named '' @ [CHR 0x27] @ ''wayland.templates'' @ [CHR 0x27])"
  let ?steps = "create_app_directory_steps ''myapp'' (path_join (cwd ?w) ''myapp'') ?w"
  have len: "(1::nat) < length ?steps"
    by (simp add: without_templates_steps)
  have run: "seq (take 1 ?steps) ?w = Return () ?wi"
    unfolding without_templates_steps
    by (simp add: world_without_templates_def example_world_def eval_defs)
  have fail: "(?steps ! 1) ?wi = Raise ?e ?wi"
    unfolding without_templates_steps
    by (simp add: world_without_templates_def example_world_def eval_defs example_strerror_def)
  have made: "fs ?wi [''home'', ''u'', ''myapp''] \<noteq> None"
    by simp
  from create_app_directory_never_raises[of "''myapp''" ?w]
  have "\<not> path_exists ?w (path_join (cwd ?w) ''myapp'') \<and> 1 < length ?steps \<and>
        seq (take 1 ?steps) ?w = Return () ?wi \<and> (?steps ! 1) ?wi = Raise ?e ?wi
        \<longrightarrow> create_app_directory ''myapp'' ?w =
        Return () (print (''An error occurred while creating the directory: '' @ str_exn ?e) ?wi) \<and>
        (\<forall>j wj q. j \<le> 1 \<and> seq (take j ?steps) ?w = Return () wj \<and> fs wj q \<noteq> None
           \<longrightarrow> fs ?wi q \<noteq> None)"
    by blast
  with without_templates_not_exists len run fail
  have r: "create_app_directory ''myapp'' ?w =
        Return () (print (''An error occurred while creating the directory: '' @ str_exn ?e) ?wi)"
    and k: "\<forall>j wj q. j \<le> 1 \<and> seq (take j ?steps) ?w = Return () wj \<and> fs wj q \<noteq> None
           \<longrightarrow> fs ?wi q \<noteq> None"
    by blast+
  from k run made have "fs ?wi [''home'', ''u'', ''myapp''] \<noteq> None"
    by blast
  with r show ?thesis
    by (simp add: print_def emit_def world_without_templates_def example_world_def)
qed

section \<open>Properties of the command line\<close>

lemma positional_new_run: "positional_word ''new''" "positional_word ''run''"
  by (simp_all add: positional_word_def classify_def)

text \<open>Every word that does not start with a dash is read as an argument.\<close>

lemma positional_plain: "a = [] \<or> hd a \<noteq> CHR ''-'' \<Longrightarrow> positional_word a"
  by (auto simp: positional_word_def classify_def)

lemma classify_port: "classify ''--port'' = Port_option None"
  by (simp add: classify_def)

lemma parse_args_one:
  "positional_word c \<Longrightarrow>
   parse_args [c] w = Return \<lparr>args_command = c, args_name = None, args_port = 8000\<rparr> w"
  by (simp add: parse_args_def positional_word_def finish_def)

lemma parse_args_two:
  "positional_word c \<Longrightarrow> positional_word n \<Longrightarrow>
   parse_args [c, n] w = Return \<lparr>args_command = c, args_name = Some n, args_port = 8000\<rparr> w"
  by (simp add: parse_args_def positional_word_def finish_def)

lemma parse_args_run_port:
  "positional_word v \<Longrightarrow> py_int v = Some i \<Longrightarrow>
   parse_args [''run'', ''--port'', v] w
     = Return \<lparr>args_command = ''run'', args_name = None, args_port = i\<rparr> w"
  using positional_new_run(2)
  by (simp add: parse_args_def positional_word_def finish_def classify_port option_met_def)

lemma parse_args_run_port_bad:
  "\<not> positional_word v \<or> py_int v = None \<Longrightarrow>
   parse_args [''run'', ''--port'', v] w = Raise (SystemExit 2) w"
  using positional_new_run(2)
  by (auto simp: parse_args_def positional_word_def finish_def classify_port option_met_def)

lemma parse_args_new_option:
  "\<not> positional_word n \<Longrightarrow>
   (\<exists>p. parse_args [''new'', n] w = Return \<lparr>args_command = ''new'', args_name = None, args_port = p\<rparr> w)
   \<or> (\<exists>k. parse_args [''new'', n] w = Raise (SystemExit k) w)"
  using positional_new_run(1)
  by (cases "classify n")
     (auto simp: parse_args_def positional_word_def finish_def option_met_def
           split: option.splits)

text \<open>
  Claim C7, as amended. \<open>main\<close> with \<open>new <name>\<close> is \<open>create_app_directory <name>\<close>
  exactly when the name is not empty and argparse reads it as an argument (it does not
  start with a dash, or is a single dash, or looks like a negative number, or holds a
  space and is no form of \<open>--help\<close>, \<open>--port\<close> or \<open>-h\<close>); with \<open>new\<close> alone it prints
  the usage line and does nothing else; with \<open>run\<close> it is \<open>run_uvicorn 8000\<close>; with
  \<open>run --port N\<close> it is \<open>run_uvicorn\<close> with the value of \<open>int(N)\<close> when argparse reads
  \<open>N\<close> as an argument and \<open>int\<close> accepts it, and otherwise the program ends with status 2;
  with any other command word that argparse reads as an argument, alone or followed by a
  name, it prints the invalid-command line and does nothing else. Neither line depends
  on the command line.
\<close>

theorem main_dispatch:
  "((main [''new'', n] w = Some (create_app_directory n w)) \<longleftrightarrow>
      (n \<noteq> [] \<and> positional_word n)) \<and>
   main [''new''] w = Some (Return () (print (usage_new w) w)) \<and>
   main [''run''] w = run_uvicorn 8000 w \<and>
   (positional_word v \<and> py_int v = Some i \<longrightarrow>
      main [''run'', ''--port'', v] w = run_uvicorn i w) \<and>
   (\<not> positional_word v \<or> py_int v = None \<longrightarrow>
      main [''run'', ''--port'', v] w = Some (Raise (SystemExit 2) w)) \<and>
   (positional_word c \<and> c \<noteq> ''new'' \<and> c \<noteq> ''run'' \<longrightarrow>
      main [c] w = Some (Return () (print (invalid_command w) w)) \<and>
      (positional_word x \<longrightarrow> main [c, x] w = Some (Return () (print (invalid_command w) w))))"
proof (intro conjI impI iffI)
  assume "n \<noteq> [] \<and> positional_word n"
  then show "main [''new'', n] w = Some (create_app_directory n w)"
    by (simp add: main_def parse_args_two positional_new_run)
next
  assume m: "main [''new'', n] w = Some (create_app_directory n w)"
  show "n \<noteq> []"
  proof
    assume "n = []"
    with m have "create_app_directory n w = Return () (print (usage_new w) w)"
      by (simp add: main_def parse_args_two positional_new_run positional_word_def classify_def)
    with create_app_directory_not_usage show False by blast
  qed
  show "positional_word n"
  proof (rule ccontr)
    assume "\<not> positional_word n"
    from parse_args_new_option[OF this, of w]
    have "main [''new'', n] w = Some (Return () (print (usage_new w) w)) \<or>
          (\<exists>k. main [''new'', n] w = Some (Raise (SystemExit k) w))"
      by (auto simp: main_def)
    with m have "create_app_directory n w = Return () (print (usage_new w) w) \<or>
          (\<exists>k. create_app_directory n w = Raise (SystemExit k) w)"
      by simp
    with create_app_directory_not_usage create_app_directory_returns show False by blast
  qed
next
  show "main [''new''] w = Some (Return () (print (usage_new w) w))"
    by (simp add: main_def parse_args_one positional_new_run)
next
  show "main [''run''] w = run_uvicorn 8000 w"
    by (simp add: main_def parse_args_one positional_new_run)
next
  assume "positional_word v \<and> py_int v = Some i"
  then show "main [''run'', ''--port'', v] w = run_uvicorn i w"
    by (simp add: main_def parse_args_run_port)
next
  assume "\<not> positional_word v \<or> py_int v = None"
  then show "main [''run'', ''--port'', v] w = Some (Raise (SystemExit 2) w)"
    by (simp add: main_def parse_args_run_port_bad)
next
  assume c: "positional_word c \<and> c \<noteq> ''new'' \<and> c \<noteq> ''run''"
  then show "main [c] w = Some (Return () (print (invalid_command w) w))"
    by (simp add: main_def parse_args_one)
  assume "positional_word x"
  with c show "main [c, x] w = Some (Return () (print (invalid_command w) w))"
    by (simp add: main_def parse_args_two)
qed

lemma py_int_5000: "py_int ''5000'' = Some 5000"
  by (simp add: py_int_def int_strip_def int_space_def is_digit_def int_max_str_digits_def)

lemma py_int_minus_5: "py_int ''-5'' = Some (- 5)"
  by (simp add: py_int_def int_strip_def int_space_def is_digit_def int_max_str_digits_def)

lemma positional_examples:
  "positional_word ''myapp''" "positional_word ''serve''" "positional_word ''5000''"
  "positional_word ''-5''" "\<not> positional_word ''-1_0''" "\<not> positional_word ''-x''"
  by (simp_all add: positional_word_def classify_def partition_eq_def is_prefix_def
        negative_number_like_def is_digit_def)

theorem main_dispatch_witness:
  "main [''new'', ''myapp''] example_world = Some (create_app_directory ''myapp'' example_world) \<and>
   main [''new'', ''-5''] example_world = Some (create_app_directory ''-5'' example_world) \<and>
   main [''new'', ''-x''] example_world \<noteq> Some (create_app_directory ''-x'' example_world) \<and>
   main [''run'', ''--port'', ''5000''] example_world = run_uvicorn 5000 example_world \<and>
   main [''run'', ''--port'', ''-5''] example_world = run_uvicorn (- 5) example_world \<and>
   main [''run'', ''--port'', ''-1_0''] example_world = Some (Raise (SystemExit 2) example_world) \<and>
   main [''serve''] example_world =
     Some (Return () (example_world\<lparr>trace := [Print (invalid_command example_world)]\<rparr>)) \<and>
   main [''serve'', ''myapp''] example_world =
     Some (Return () (example_world\<lparr>trace := [Print (invalid_command example_world)]\<rparr>))"
proof -
  have t: "trace example_world = []" by (simp add: example_world_def)
  from main_dispatch[of "''myapp''" example_world "''5000''" 5000 "''serve''" "''myapp''"]
    positional_examples py_int_5000
  have a: "main [''new'', ''myapp''] example_world = Some (create_app_directory ''myapp'' example_world)"
    "main [''run'', ''--port'', ''5000''] example_world = run_uvicorn 5000 example_world"
    "main [''serve''] example_world =
       Some (Return () (example_world\<lparr>trace := [Print (invalid_command example_world)]\<rparr>))"
    "main [''serve'', ''myapp''] example_world =
       Some (Return () (example_world\<lparr>trace := [Print (invalid_command example_world)]\<rparr>))"
    by (simp_all add: print_def emit_def t)
  from main_dispatch[of "''-5''" example_world "''-5''" "- 5" "''serve''" "''myapp''"]
    positional_examples py_int_minus_5
  have b: "main [''new'', ''-5''] example_world = Some (create_app_directory ''-5'' example_world)"
    "main [''run'', ''--port'', ''-5''] example_world = run_uvicorn (- 5) example_world"
    by simp_all
  from main_dispatch[of "''-x''" example_world "''-1_0''" 0 "''serve''" "''myapp''"]
    positional_examples
  have c: "main [''new'', ''-x''] example_world \<noteq> Some (create_app_directory ''-x'' example_world)"
    "main [''run'', ''--port'', ''-1_0''] example_world = Some (Raise (SystemExit 2) example_world)"
    by simp_all
  from a b c show ?thesis by simp
qed

text \<open>
  Claim C7 as stated fails at the empty name: \<open>if args.name\<close> takes it for a missing
  one, and \<open>main\<close> prints the usage line where \<open>create_app_directory\<close>, called with the
  empty name, reports that the directory exists. It fails at names and ports that
  argparse reads as options: with the name \<open>-x\<close>, and with the port \<open>-1_0\<close>, which \<open>int\<close>
  reads as \<open>-10\<close>, the program ends with status 2.
\<close>

theorem main_new_empty_name_counterexample:
  "main [''new'', ''''] example_world =
     Some (Return ()
       (example_world\<lparr>trace :=
          [Print (''Please provide a name for the new app. Usage: '' @ [CHR 0x27] @
                  ''wayland new <name>'' @ [CHR 0x27])]\<rparr>)) \<and>
   create_app_directory '''' example_world =
     Return ()
       (example_world\<lparr>trace := [Print ''app name already exists at this directory'']\<rparr>) \<and>
   main [''new'', ''-x''] example_world = Some (Raise (SystemExit 2) example_world) \<and>
   py_int ''-1_0'' = Some (- 10) \<and>
   main [''run'', ''--port'', ''-1_0''] example_world = Some (Raise (SystemExit 2) example_world)"
proof (intro conjI)
  show "main [''new'', ''''] example_world =
     Some (Return ()
       (example_world\<lparr>trace :=
          [Print (''Please provide a name for the new app. Usage: '' @ [CHR 0x27] @
                  ''wayland new <name>'' @ [CHR 0x27])]\<rparr>))"
    by (simp add: main_def parse_args_def classify_def finish_def usage_new_def print_def
          emit_def example_world_def lower_def lower_char_def char_of_eq_iff)
  show "create_app_directory '''' example_world =
     Return ()
       (example_world\<lparr>trace := [Print ''app name already exists at this directory'']\<rparr>)"
    by (simp add: create_app_directory_def path_join_def path_exists_def resolve_def
          step_key_def print_def emit_def example_world_def)
  show "main [''new'', ''-x''] example_world = Some (Raise (SystemExit 2) example_world)"
    by (simp add: main_def parse_args_def classify_def partition_eq_def is_prefix_def
          negative_number_like_def is_digit_def finish_def option_met_def)
  show "py_int ''-1_0'' = Some (- 10)"
    by (simp add: py_int_def int_strip_def int_space_def is_digit_def int_max_str_digits_def)
  show "main [''run'', ''--port'', ''-1_0''] example_world = Some (Raise (SystemExit 2) example_world)"
    by (simp add: main_def parse_args_def classify_def partition_eq_def is_prefix_def
          negative_number_like_def is_digit_def positional_word_def finish_def option_met_def)
qed

end
